theory Spec2Isabelle
  imports Main
begin

section \<open>JavaScript values and strings\<close>

text \<open>
  Property values of the objects the session manager handles. \<open>truthy\<close> is
  JavaScript's ToBoolean, which every \<^verbatim>\<open>!x\<close>, \<^verbatim>\<open>x && y\<close> and \<^verbatim>\<open>x || y\<close> of the
  source applies; a missing property reads as \<open>JUndefined\<close>.
\<close>

datatype jsprim = JUndefined | JNull | JBool bool | JNum int | JStr string | JBigInt int

fun truthy :: "jsprim \<Rightarrow> bool" where
  "truthy JUndefined = False"
| "truthy JNull = False"
| "truthy (JBool b) = b"
| "truthy (JNum n) = (n \<noteq> 0)"
| "truthy (JStr s) = (s \<noteq> [])"
| "truthy (JBigInt n) = (n \<noteq> 0)"

text \<open>A timestamp property: absent, or a number; \<open>0\<close> is falsy like an absent one.\<close>

fun truthy_num :: "int option \<Rightarrow> bool" where
  "truthy_num None = False"
| "truthy_num (Some n) = (n \<noteq> 0)"

text \<open>\<^verbatim>\<open>a || b\<close>\<close>

definition js_or :: "jsprim \<Rightarrow> jsprim \<Rightarrow> jsprim" where
  "js_or a b = (if truthy a then a else b)"

text \<open>\<^verbatim>\<open>s.includes(sub)\<close>: \<open>sub\<close> occurs in \<open>s\<close> as a contiguous substring.\<close>

fun includes_str :: "string \<Rightarrow> string \<Rightarrow> bool" where
  "includes_str [] sub = (sub = [])"
| "includes_str (c # cs) sub = (take (length sub) (c # cs) = sub \<or> includes_str cs sub)"

text \<open>\<^verbatim>\<open>s.split(sep)\<close> for a one-character separator: never an empty array.\<close>

fun split_on :: "char \<Rightarrow> string \<Rightarrow> string list" where
  "split_on sep [] = [[]]"
| "split_on sep (c # cs) =
     (if c = sep then [] # split_on sep cs
      else (case split_on sep cs of
              [] \<Rightarrow> [[c]]
            | seg # segs \<Rightarrow> (c # seg) # segs))"

text \<open>\<^verbatim>\<open>array.pop()\<close> read for its value: the last element.\<close>

definition pop :: "string list \<Rightarrow> string" where
  "pop xs = (case xs of [] \<Rightarrow> [] | _ \<Rightarrow> last xs)"

section \<open>The data model\<close>

text \<open>
  A further property of the user object: a primitive, or an object that
  contains itself (\<^verbatim>\<open>JSON.stringify\<close> throws on it).
\<close>

datatype jsprop = Plain jsprim | Circular

text \<open>
  The user object: the properties the source reads, and the others it carries
  (an email and so on), which only \<^verbatim>\<open>JSON.stringify\<close> visits.
\<close>

record user =
  user_id :: jsprim
  username :: jsprim
  full_name :: jsprim
  role :: jsprim
  others :: "(string \<times> jsprop) list"

text \<open>
  The session record as \<^verbatim>\<open>JSON.parse\<close> returns it: \<open>user\<close> is \<open>None\<close> when
  the property is missing or falsy, a timestamp is \<open>None\<close> when it is missing.
\<close>

record session_data =
  user :: "user option"
  loginTime :: "int option"
  expiry :: "int option"
  stored_lastActivity :: "int option"

text \<open>
  What a key of localStorage holds: the empty string, a text that
  \<^verbatim>\<open>JSON.parse\<close> rejects, or a text that parses, to \<^verbatim>\<open>null\<close> (\<open>Json None\<close>)
  or to an object.
\<close>

datatype item = EmptyText | BadText | Json "session_data option"

text \<open>
  \<^verbatim>\<open>JSON.stringify\<close> throws a TypeError on a BigInt and on a circular structure;
  it leaves out the properties whose value is \<^verbatim>\<open>undefined\<close>. \<open>stringify\<close> gives
  what the text it returns parses to, \<open>None\<close> when it throws.
\<close>

fun is_bigint :: "jsprim \<Rightarrow> bool" where
  "is_bigint (JBigInt n) = True"
| "is_bigint _ = False"

fun unserializable :: "jsprop \<Rightarrow> bool" where
  "unserializable Circular = True"
| "unserializable (Plain v) = is_bigint v"

definition stringify_throws :: "user \<Rightarrow> bool" where
  "stringify_throws u =
     (is_bigint (user_id u) \<or> is_bigint (username u) \<or> is_bigint (full_name u) \<or>
      is_bigint (role u) \<or> list_ex (\<lambda>(k, v). unserializable v) (others u))"

definition stringify :: "session_data \<Rightarrow> item option" where
  "stringify sd =
     (case user sd of
        None \<Rightarrow> Some (Json (Some sd))
      | Some u \<Rightarrow>
          if stringify_throws u then None
          else Some (Json (Some (sd\<lparr>user :=
                 Some (u\<lparr>others := filter (\<lambda>(k, v). v \<noteq> Plain JUndefined) (others u)\<rparr>)\<rparr>))))"

text \<open>A DOM element: its id, its class list, \<^verbatim>\<open>style.display\<close> and its content.\<close>

datatype content = Html string | Text jsprim

record element =
  elem_id :: string
  classList :: "string list"
  display :: string
  content :: content

text \<open>
  The manager's fields and the browser around it. The clock is \<open>now\<close>
  (milliseconds since the epoch) with the delays \<open>ticks\<close> that pass before each
  later reading of \<^verbatim>\<open>Date.now()\<close>: it never runs backwards, and it stands
  still once the delays are used up. \<open>confirms\<close> are the answers the user gives
  to the coming \<^verbatim>\<open>confirm\<close> dialogs, true for OK; \<open>storageFull\<close> makes
  \<^verbatim>\<open>localStorage.setItem\<close> throw; \<open>document\<close> lists the elements the scripts
  look up, without their nesting; \<open>href\<close> is a navigation the page asked for.
\<close>

record state =
  currentUser :: "user option"
  sessionExpiry :: "int option"
  lastActivity :: int
  isInitialized :: bool
  localStorage :: "string \<rightharpoonup> item"
  storageFull :: bool
  now :: nat
  ticks :: "nat list"
  confirms :: "bool list"
  document :: "element list"
  pathname :: string
  href :: "string option"

definition SESSION_KEY :: string where
  "SESSION_KEY = ''model_a_admin_session''"

definition SESSION_TIMEOUT :: int where
  "SESSION_TIMEOUT = 24 * 60 * 60 * 1000"

definition ACTIVITY_TIMEOUT :: int where
  "ACTIVITY_TIMEOUT = 30 * 60 * 1000"

section \<open>The browser\<close>

text \<open>\<^verbatim>\<open>Date.now()\<close>: the next delay passes, the clock is read.\<close>

definition date_now :: "state \<Rightarrow> int \<times> state" where
  "date_now s =
     (case ticks s of
        [] \<Rightarrow> (int (now s), s)
      | d # ds \<Rightarrow> (int (now s + d), s\<lparr>now := now s + d, ticks := ds\<rparr>))"

text \<open>\<^verbatim>\<open>localStorage.setItem\<close>: \<open>None\<close> is the QuotaExceededError it throws.\<close>

definition setItem :: "state \<Rightarrow> string \<Rightarrow> item \<Rightarrow> state option" where
  "setItem s k v =
     (if storageFull s then None
      else Some (s\<lparr>localStorage := (localStorage s)(k \<mapsto> v)\<rparr>))"

text \<open>
  \<^verbatim>\<open>localStorage.removeItem\<close> and \<^verbatim>\<open>getItem\<close> do not throw: the \<^verbatim>\<open>catch\<close>
  around them is reached by \<^verbatim>\<open>JSON.parse\<close> alone.
\<close>

definition removeItem :: "state \<Rightarrow> string \<Rightarrow> state" where
  "removeItem s k = s\<lparr>localStorage := (localStorage s)(k := None)\<rparr>"

definition getElementById :: "element list \<Rightarrow> string \<Rightarrow> element option" where
  "getElementById els i = find (\<lambda>e. elem_id e = i) els"

text \<open>A write through the reference \<^verbatim>\<open>getElementById\<close> returned: the first element of that id.\<close>

fun update_by_id :: "string \<Rightarrow> (element \<Rightarrow> element) \<Rightarrow> element list \<Rightarrow> element list" where
  "update_by_id i f [] = []"
| "update_by_id i f (e # es) =
     (if elem_id e = i then f e # es else e # update_by_id i f es)"

definition classList_add :: "string \<Rightarrow> element \<Rightarrow> element" where
  "classList_add c e = (if c \<in> set (classList e) then e else e\<lparr>classList := classList e @ [c]\<rparr>)"

definition classList_remove :: "string \<Rightarrow> element \<Rightarrow> element" where
  "classList_remove c e = e\<lparr>classList := removeAll c (classList e)\<rparr>"

section \<open>AdminSessionManager\<close>

definition getStoredSession :: "state \<Rightarrow> session_data option \<times> state" where
  "getStoredSession s =
     (case localStorage s SESSION_KEY of
        None \<Rightarrow> (None, s)
      | Some EmptyText \<Rightarrow> (None, s)
      | Some BadText \<Rightarrow> (None, removeItem s SESSION_KEY)
      | Some (Json v) \<Rightarrow> (v, s))"

definition isSessionValid :: "session_data option \<Rightarrow> state \<Rightarrow> bool \<times> state" where
  "isSessionValid sessionData s =
     (case sessionData of
        None \<Rightarrow> (False, s)
      | Some sd \<Rightarrow>
          (case user sd of
             None \<Rightarrow> (False, s)
           | Some u \<Rightarrow>
               if \<not> truthy_num (expiry sd) then (False, s)
               else
                 let (t, s1) = date_now s in
                 if t \<ge> the (expiry sd) then (False, s1)
                 else if \<not> truthy (username u) then (False, s1)
                 else if \<not> truthy (user_id u) then (False, s1)
                 else (True, s1)))"

definition clearSession :: "state \<Rightarrow> state" where
  "clearSession s =
     (let s1 = removeItem s SESSION_KEY;
          s2 = s1\<lparr>currentUser := None, sessionExpiry := None\<rparr>;
          (t, s3) = date_now s2
      in s3\<lparr>lastActivity := t\<rparr>)"

definition showLoginForm :: "state \<Rightarrow> state" where
  "showLoginForm s =
     (case (getElementById (document s) ''loginScreen'',
            getElementById (document s) ''adminDashboard'') of
        (Some _, Some _) \<Rightarrow>
          s\<lparr>document :=
              update_by_id ''adminDashboard''
                (\<lambda>e. (classList_add ''hidden'' e)\<lparr>display := ''none''\<rparr>)
                (update_by_id ''loginScreen''
                   (\<lambda>e. (classList_remove ''hidden'' e)\<lparr>display := ''block''\<rparr>)
                   (document s))\<rparr>
      | _ \<Rightarrow> s)"

definition updateUserDisplay :: "state \<Rightarrow> state" where
  "updateUserDisplay s =
     (case currentUser s of
        None \<Rightarrow> s
      | Some u \<Rightarrow>
          let shown = Text (js_or (full_name u) (username u));
              d1 = update_by_id ''currentUser'' (\<lambda>e. e\<lparr>content := shown\<rparr>) (document s);
              d2 = map (\<lambda>e. if ''admin-user-name'' \<in> set (classList e)
                              then e\<lparr>content := shown\<rparr> else e) d1
          in s\<lparr>document := d2\<rparr>)"

definition showAdminContent :: "state \<Rightarrow> state" where
  "showAdminContent s =
     (case (getElementById (document s) ''loginScreen'',
            getElementById (document s) ''adminDashboard'') of
        (Some _, Some _) \<Rightarrow>
          updateUserDisplay
            (s\<lparr>document :=
                update_by_id ''adminDashboard''
                  (\<lambda>e. (classList_remove ''hidden'' e)\<lparr>display := ''block''\<rparr>)
                  (update_by_id ''loginScreen''
                     (\<lambda>e. (classList_add ''hidden'' e)\<lparr>display := ''none''\<rparr>)
                     (document s))\<rparr>)
      | _ \<Rightarrow> s)"

definition logout :: "state \<Rightarrow> bool \<Rightarrow> state" where
  "logout s redirect =
     (let s1 = clearSession s in
      if redirect \<and> \<not> includes_str (pathname s1) ''admin-dashboard.html''
      then s1\<lparr>href := Some ''admin-dashboard.html''\<rparr>
      else showLoginForm s1)"

text \<open>
  \<^verbatim>\<open>isAuthenticated\<close>, \<^verbatim>\<open>showInactivityWarning\<close> and \<^verbatim>\<open>updateActivity\<close> call one
  another. \<open>None\<close> is a call that does not return: the \<^verbatim>\<open>confirm\<close> dialog is
  open and no answer comes.
\<close>

function (sequential)
  isAuthenticated :: "state \<Rightarrow> (bool \<times> state) option" and
  showInactivityWarning :: "state \<Rightarrow> state option" and
  updateActivity :: "state \<Rightarrow> state option"
where
  "isAuthenticated s =
     (if currentUser s = None \<or> \<not> truthy_num (sessionExpiry s) then Some (False, s)
      else
        let (t1, s1) = date_now s in
        if t1 \<ge> the (sessionExpiry s1) then Some (False, clearSession s1)
        else
          let (t2, s2) = date_now s1 in
          if t2 - lastActivity s2 > ACTIVITY_TIMEOUT
          then (case showInactivityWarning s2 of
                  None \<Rightarrow> None
                | Some s3 \<Rightarrow> Some (False, s3))
          else Some (True, s2))"
| "showInactivityWarning s =
     (case confirms s of
        [] \<Rightarrow> None
      | shouldExtend # answers \<Rightarrow>
          if shouldExtend then updateActivity (s\<lparr>confirms := answers\<rparr>)
          else Some (logout (s\<lparr>confirms := answers\<rparr>) False))"
| "updateActivity s =
     (case isAuthenticated s of
        None \<Rightarrow> None
      | Some (authenticated, s1) \<Rightarrow>
          if authenticated then
            let (t, s2) = date_now s1;
                s3 = s2\<lparr>lastActivity := t\<rparr>;
                (sessionData, s4) = getStoredSession s3
            in (case sessionData of
                  None \<Rightarrow> Some s4
                | Some sd \<Rightarrow>
                    let (t', s5) = date_now s4;
                        sd' = sd\<lparr>stored_lastActivity := Some (lastActivity s5),
                                 expiry := Some (t' + SESSION_TIMEOUT)\<rparr>;
                        s6 = s5\<lparr>sessionExpiry := expiry sd'\<rparr>
                    in (case stringify sd' of
                          None \<Rightarrow> Some s6
                        | Some encoded \<Rightarrow>
                            (case setItem s6 SESSION_KEY encoded of
                               None \<Rightarrow> Some s6
                             | Some s7 \<Rightarrow> Some s7)))
          else Some s1)"
  by pat_completeness auto
termination
  by (relation "measure (\<lambda>x. case x of
        Inl s \<Rightarrow> 3 * length (confirms s) + 1
      | Inr (Inl s) \<Rightarrow> 3 * length (confirms s)
      | Inr (Inr s) \<Rightarrow> 3 * length (confirms s) + 2)")
     (auto simp: date_now_def split: list.splits)

declare isAuthenticated.simps [simp del]
declare showInactivityWarning.simps [simp del]
declare updateActivity.simps [simp del]

definition initializeSession :: "state \<Rightarrow> (bool \<times> state) option" where
  "initializeSession s =
     (if isInitialized s then isAuthenticated s
      else
        let (savedSession, s1) = getStoredSession s;
            (valid, s2) = (case savedSession of
                             None \<Rightarrow> (False, s1)
                           | Some sd \<Rightarrow> isSessionValid savedSession s1)
        in (case (valid, savedSession) of
              (True, Some sd) \<Rightarrow>
                let s3 = s2\<lparr>currentUser := user sd, sessionExpiry := expiry sd\<rparr>;
                    (la, s4) = (if truthy_num (stored_lastActivity sd)
                                then (the (stored_lastActivity sd), s3)
                                else date_now s3);
                    s5 = s4\<lparr>lastActivity := la\<rparr>
                in (case updateActivity s5 of
                      None \<Rightarrow> None
                    | Some s6 \<Rightarrow> Some (True, s6\<lparr>isInitialized := True\<rparr>))
            | _ \<Rightarrow> Some (False, (clearSession s2)\<lparr>isInitialized := True\<rparr>)))"

text \<open>
  \<^verbatim>\<open>createSession(user)\<close>; \<open>None\<close> is a \<^verbatim>\<open>null\<close> or \<^verbatim>\<open>undefined\<close> argument.
  A throwing \<^verbatim>\<open>JSON.stringify\<close> and a throwing \<^verbatim>\<open>setItem\<close> land in the
  \<^verbatim>\<open>catch\<close>, before the fields are set.
\<close>

definition createSession :: "state \<Rightarrow> user option \<Rightarrow> bool \<times> state" where
  "createSession s usr =
     (case usr of
        None \<Rightarrow> (False, s)
      | Some u \<Rightarrow>
          if \<not> truthy (username u) then (False, s)
          else if \<not> truthy (user_id u) then (False, s)
          else
            let (t1, s1) = date_now s;
                (t2, s2) = date_now s1;
                (t3, s3) = date_now s2;
                sessionData = \<lparr>user = Some u, loginTime = Some t1,
                               expiry = Some (t2 + SESSION_TIMEOUT),
                               stored_lastActivity = Some t3\<rparr>
            in (case stringify sessionData of
                  None \<Rightarrow> (False, s3)
                | Some encoded \<Rightarrow>
                    (case setItem s3 SESSION_KEY encoded of
                       None \<Rightarrow> (False, s3)
                     | Some s4 \<Rightarrow>
                         (True, s4\<lparr>currentUser := Some u,
                                    sessionExpiry := expiry sessionData,
                                    lastActivity := t3\<rparr>))))"

text \<open>\<^verbatim>\<open>getCurrentUser()\<close>: \<open>None\<close> inside the result is \<^verbatim>\<open>null\<close>.\<close>

definition getCurrentUser :: "state \<Rightarrow> (user option \<times> state) option" where
  "getCurrentUser s =
     (case isAuthenticated s of
        None \<Rightarrow> None
      | Some (authenticated, s1) \<Rightarrow>
          Some (if authenticated then currentUser s1 else None, s1))"

definition adminPages :: "string list" where
  "adminPages =
     [''admin-dashboard.html'', ''admin-events.html'', ''admin-news.html'',
      ''admin-members.html'', ''admin-photos.html'', ''admin-users.html'',
      ''admin-settings.html'']"

definition requiresAuthentication :: "state \<Rightarrow> bool" where
  "requiresAuthentication s =
     (let currentPage = pop (split_on (CHR ''/'') (pathname s))
      in currentPage \<in> set adminPages \<or> includes_str (pathname s) ''/admin'')"

definition protectPage :: "state \<Rightarrow> (bool \<times> state) option" where
  "protectPage s =
     (if \<not> requiresAuthentication s then Some (True, s)
      else (case isAuthenticated s of
              None \<Rightarrow> None
            | Some (authenticated, s1) \<Rightarrow>
                if authenticated then Some (True, showAdminContent s1)
                else Some (False, showLoginForm s1)))"

definition refreshSession :: "state \<Rightarrow> (bool \<times> state) option" where
  "refreshSession s = initializeSession (s\<lparr>isInitialized := False\<rparr>)"

text \<open>
  The constructor, up to the end of \<^verbatim>\<open>initializeSession\<close>; the listeners that
  \<^verbatim>\<open>setupActivityTracking\<close> registers run later, on events.
\<close>

definition constructor :: "state \<Rightarrow> state option" where
  "constructor s =
     (let s1 = s\<lparr>currentUser := None, sessionExpiry := None\<rparr>;
          (t, s2) = date_now s1;
          s3 = s2\<lparr>lastActivity := t, isInitialized := False\<rparr>
      in map_option snd (initializeSession s3))"

section \<open>The header and footer loader\<close>

text \<open>
  How a \<^verbatim>\<open>fetch\<close> ends: the promise rejects (a network failure, with the
  error's message), or it resolves to a response with a status, a status text
  and a body whose reading gives the text or rejects in its turn.
\<close>

datatype body_outcome = BodyText string | BodyFailure string

datatype fetch_outcome = NetworkFailure string | Response nat string body_outcome

text \<open>\<^verbatim>\<open>response.ok\<close>\<close>

definition response_ok :: "nat \<Rightarrow> bool" where
  "response_ok status = (200 \<le> status \<and> status \<le> 299)"

text \<open>A number inside a template literal: its decimal digits.\<close>

fun string_of_nat :: "nat \<Rightarrow> string" where
  "string_of_nat n =
     (if n < 10 then [''0123456789'' ! n]
      else string_of_nat (n div 10) @ [''0123456789'' ! (n mod 10)])"

declare string_of_nat.simps [simp del]

definition headerPath :: string where
  "headerPath = ''header.html''"

definition footerPath :: string where
  "footerPath = ''footer.html''"

definition headerContainerId :: string where
  "headerContainerId = ''header-container''"

definition footerContainerId :: string where
  "footerContainerId = ''footer-container''"

definition loading_html :: "string \<Rightarrow> string" where
  \<open>loading_html componentName =
     ''<div class="loading-component">Loading '' @ componentName @ ''...</div>''\<close>

definition error_html :: "string \<Rightarrow> string \<Rightarrow> string" where
  \<open>error_html componentName message =
     [CHR 0x0A] @ replicate 16 (CHR '' '') @ ''<div class="component-error">'' @
     [CHR 0x0A] @ replicate 20 (CHR '' '') @
       ''<p>Unable to load '' @ componentName @ ''. Please refresh the page.</p>'' @
     [CHR 0x0A] @ replicate 20 (CHR '' '') @ ''<small>Error: '' @ message @ ''</small>'' @
     [CHR 0x0A] @ replicate 16 (CHR '' '') @ ''</div>'' @
     [CHR 0x0A] @ replicate 12 (CHR '' '')\<close>

text \<open>\<^verbatim>\<open>container.innerHTML = html\<close>, through the element's id.\<close>

definition set_innerHTML :: "string \<Rightarrow> string \<Rightarrow> element list \<Rightarrow> element list" where
  "set_innerHTML containerId html els =
     update_by_id containerId (\<lambda>e. e\<lparr>content := Html html\<rparr>) els"

text \<open>
  The part of the \<^verbatim>\<open>try\<close> block after the loading indicator: \<open>Inl\<close> is the
  message of the error thrown there, \<open>Inr\<close> the text read from the response.
\<close>

definition fetch_text :: "fetch_outcome \<Rightarrow> string + string" where
  "fetch_text outcome =
     (case outcome of
        NetworkFailure message \<Rightarrow> Inl message
      | Response status statusText body \<Rightarrow>
          if \<not> response_ok status
          then Inl (''HTTP '' @ string_of_nat status @ '': '' @ statusText)
          else (case body of
                  BodyFailure message \<Rightarrow> Inl message
                | BodyText htmlContent \<Rightarrow> Inr htmlContent))"

text \<open>
  \<^verbatim>\<open>loadHTMLComponent\<close> up to its first \<^verbatim>\<open>await\<close>: \<open>None\<close> when the container
  is missing and the call has returned false, else the document with the
  loading indicator.
\<close>

definition load_start :: "element list \<Rightarrow> string \<Rightarrow> string \<Rightarrow> element list option" where
  "load_start els containerId componentName =
     (case getElementById els containerId of
        None \<Rightarrow> None
      | Some container \<Rightarrow> Some (set_innerHTML containerId (loading_html componentName) els))"

text \<open>\<^verbatim>\<open>loadHTMLComponent\<close> from the moment its fetch has settled.\<close>

definition load_finish ::
  "fetch_outcome \<Rightarrow> element list \<Rightarrow> string \<Rightarrow> string \<Rightarrow> bool \<times> element list" where
  "load_finish outcome els containerId componentName =
     (case fetch_text outcome of
        Inr htmlContent \<Rightarrow> (True, set_innerHTML containerId htmlContent els)
      | Inl message \<Rightarrow>
          (case getElementById els containerId of
             None \<Rightarrow> (False, els)
           | Some container \<Rightarrow>
               (False, set_innerHTML containerId (error_html componentName message) els)))"

definition loadHTMLComponent ::
  "(string \<Rightarrow> fetch_outcome) \<Rightarrow> element list \<Rightarrow> string \<Rightarrow> string \<Rightarrow> string
     \<Rightarrow> bool \<times> element list" where
  "loadHTMLComponent fetch els componentPath containerId componentName =
     (case load_start els containerId componentName of
        None \<Rightarrow> (False, els)
      | Some els1 \<Rightarrow> load_finish (fetch componentPath) els1 containerId componentName)"

text \<open>
  The two loads of \<^verbatim>\<open>loadAllComponents\<close> under \<^verbatim>\<open>Promise.all\<close>: both start,
  header first, then each finishes when its fetch settles, in the order
  \<open>headerFirst\<close> gives. The result is \<^verbatim>\<open>loadResults\<close> and the document before
  \<^verbatim>\<open>initializeComponentFeatures\<close> runs.
\<close>

definition loadAllComponents ::
  "(string \<Rightarrow> fetch_outcome) \<Rightarrow> bool \<Rightarrow> element list \<Rightarrow> (bool \<times> bool) \<times> element list" where
  "loadAllComponents fetch headerFirst els =
     (let h = load_start els headerContainerId ''header'';
          els1 = (case h of None \<Rightarrow> els | Some d \<Rightarrow> d);
          f = load_start els1 footerContainerId ''footer'';
          els2 = (case f of None \<Rightarrow> els1 | Some d \<Rightarrow> d);
          finish_header = (\<lambda>d. if h = None then (False, d)
                                else load_finish (fetch headerPath) d headerContainerId ''header'');
          finish_footer = (\<lambda>d. if f = None then (False, d)
                                else load_finish (fetch footerPath) d footerContainerId ''footer'')
      in if headerFirst
         then (let (headerLoaded, els3) = finish_header els2;
                   (footerLoaded, els4) = finish_footer els3
               in ((headerLoaded, footerLoaded), els4))
         else (let (footerLoaded, els3) = finish_footer els2;
                   (headerLoaded, els4) = finish_header els3
               in ((headerLoaded, footerLoaded), els4)))"

section \<open>Predicates and example states\<close>

text \<open>No session is held: no user and no expiry in memory, no record under the key.\<close>

definition cleared :: "state \<Rightarrow> bool" where
  "cleared s =
     (currentUser s = None \<and> sessionExpiry s = None \<and> localStorage s SESSION_KEY = None)"

text \<open>
  A session is held and the last activity is more than the threshold behind the
  clock, so behind every later reading of it as well.
\<close>

definition inactive :: "state \<Rightarrow> bool" where
  "inactive s =
     (currentUser s \<noteq> None \<and> truthy_num (sessionExpiry s) \<and>
      ACTIVITY_TIMEOUT < int (now s) - lastActivity s)"

definition alice :: user where
  "alice = \<lparr>user_id = JNum 7, username = JStr ''alice'', full_name = JStr ''Alice A'',
             role = JStr ''admin'', others = [(''email'', Plain (JStr ''alice@example.org''))]\<rparr>"

definition session0 :: session_data where
  "session0 = \<lparr>user = Some alice, loginTime = Some 1700000000000,
                expiry = Some 1700086400000, stored_lastActivity = Some 1700000000000\<rparr>"

definition dashboard :: "element list" where
  "dashboard =
     [\<lparr>elem_id = ''loginScreen'', classList = [], display = ''block'', content = Html []\<rparr>,
      \<lparr>elem_id = ''adminDashboard'', classList = [''hidden''], display = ''none'',
        content = Html []\<rparr>,
      \<lparr>elem_id = ''currentUser'', classList = [''admin-user-name''], display = [],
        content = Text JUndefined\<rparr>]"

text \<open>A page that holds a session created at 1700000000000 and last used then.\<close>

definition page0 :: state where
  "page0 = \<lparr>currentUser = Some alice, sessionExpiry = Some 1700086400000,
             lastActivity = 1700000000000, isInitialized = True,
             localStorage = [SESSION_KEY \<mapsto> Json (Some session0)], storageFull = False,
             now = 1700000000000, ticks = [], confirms = [], document = dashboard,
             pathname = ''/admin-dashboard.html'', href = None\<rparr>"

text \<open>Thirty-one minutes after the last activity; the session has hours left.\<close>

definition idle :: state where
  "idle = page0\<lparr>now := 1700001860000\<rparr>"

text \<open>Two users that \<^verbatim>\<open>JSON.stringify\<close> refuses: a BigInt id, a circular property.\<close>

definition big_id_user :: user where
  "big_id_user = alice\<lparr>user_id := JBigInt 7\<rparr>"

definition looped_user :: user where
  "looped_user = alice\<lparr>others := [(''profile'', Circular)]\<rparr>"

text \<open>A page that shows the login form: no session in memory, none stored.\<close>

definition login_page :: state where
  "login_page = page0\<lparr>currentUser := None, sessionExpiry := None, isInitialized := False,
                        localStorage := Map.empty\<rparr>"

text \<open>
  A stored record is structurally complete when it has a user with an id and a
  username, and an expiry; the stored record is then absent or complete.
\<close>

definition structurally_complete :: "session_data \<Rightarrow> bool" where
  "structurally_complete sd =
     ((case user sd of
         None \<Rightarrow> False
       | Some u \<Rightarrow> truthy (user_id u) \<and> truthy (username u)) \<and>
      truthy_num (expiry sd))"

definition absent_or_complete :: "state \<Rightarrow> bool" where
  "absent_or_complete s =
     (case localStorage s SESSION_KEY of
        None \<Rightarrow> True
      | Some (Json (Some sd)) \<Rightarrow> structurally_complete sd
      | Some _ \<Rightarrow> False)"

definition stored_complete :: "state \<Rightarrow> bool" where
  "stored_complete s =
     (case localStorage s SESSION_KEY of
        Some (Json (Some sd)) \<Rightarrow> structurally_complete sd
      | _ \<Rightarrow> False)"

text \<open>A page load that finds a stored record whose user has no id.\<close>

definition no_id_page :: state where
  "no_id_page =
     login_page\<lparr>localStorage :=
       [SESSION_KEY \<mapsto> Json (Some (session0\<lparr>user := Some (alice\<lparr>user_id := JUndefined\<rparr>)\<rparr>))]\<rparr>"

text \<open>The dashboard page with the admin content showing.\<close>

definition dashboard_shown :: "element list" where
  "dashboard_shown =
     [\<lparr>elem_id = ''loginScreen'', classList = [''card'', ''hidden''], display = ''none'',
        content = Html []\<rparr>,
      \<lparr>elem_id = ''adminDashboard'', classList = [''wide''], display = ''block'',
        content = Html []\<rparr>,
      \<lparr>elem_id = ''currentUser'', classList = [''admin-user-name''], display = [],
        content = Text (JStr ''Alice A'')\<rparr>]"

text \<open>
  The fetch succeeded with an OK status: the response came, its status is in
  200..299 and its body was read. The other outcomes are the network failure,
  the non-OK status and the failure to read the body.
\<close>

definition fetch_succeeded :: "fetch_outcome \<Rightarrow> bool" where
  "fetch_succeeded outcome =
     (case outcome of
        Response status statusText (BodyText htmlContent) \<Rightarrow> response_ok status
      | _ \<Rightarrow> False)"

text \<open>A page with both containers, and a server that has the header only.\<close>

definition site :: "element list" where
  "site =
     [\<lparr>elem_id = ''header-container'', classList = [], display = [], content = Html []\<rparr>,
      \<lparr>elem_id = ''main'', classList = [], display = [], content = Html ''<h1>Club</h1>''\<rparr>,
      \<lparr>elem_id = ''footer-container'', classList = [], display = [], content = Html []\<rparr>]"

definition server :: "string \<Rightarrow> fetch_outcome" where
  "server path =
     (if path = ''header.html'' then Response 200 ''OK'' (BodyText ''<div>H</div>'')
      else if path = ''footer.html'' then Response 404 ''Not Found'' (BodyText ''<h1>404</h1>'')
      else if path = ''cut.html'' then Response 200 ''OK'' (BodyFailure ''network error'')
      else NetworkFailure ''Failed to fetch'')"

section \<open>The clock and the clearing of a session\<close>

lemma date_now_eq:
  "date_now s =
     (int (now s + sum_list (take 1 (ticks s))),
      s\<lparr>now := now s + sum_list (take 1 (ticks s)), ticks := drop 1 (ticks s)\<rparr>)"
  by (cases s) (simp add: date_now_def split: list.splits)

lemma date_now_fields [simp]:
  "currentUser (snd (date_now s)) = currentUser s"
  "sessionExpiry (snd (date_now s)) = sessionExpiry s"
  "lastActivity (snd (date_now s)) = lastActivity s"
  "isInitialized (snd (date_now s)) = isInitialized s"
  "localStorage (snd (date_now s)) = localStorage s"
  "storageFull (snd (date_now s)) = storageFull s"
  "confirms (snd (date_now s)) = confirms s"
  "document (snd (date_now s)) = document s"
  "pathname (snd (date_now s)) = pathname s"
  "href (snd (date_now s)) = href s"
  by (simp_all add: date_now_eq)

lemma cleared_clearSession: "cleared (clearSession s)"
  by (simp add: cleared_def clearSession_def removeItem_def date_now_eq)

lemma showLoginForm_fields [simp]:
  "currentUser (showLoginForm s) = currentUser s"
  "sessionExpiry (showLoginForm s) = sessionExpiry s"
  "localStorage (showLoginForm s) = localStorage s"
  by (simp_all add: showLoginForm_def split: option.splits)

lemma cleared_logout: "cleared (logout s False)"
  using cleared_clearSession[of s] by (simp add: cleared_def logout_def)

section \<open>isAuthenticated\<close>

lemma isAuthenticated_unfold:
  "isAuthenticated s =
     (if currentUser s = None \<or> \<not> truthy_num (sessionExpiry s) then Some (False, s)
      else if the (sessionExpiry s) \<le> fst (date_now s)
      then Some (False, clearSession (snd (date_now s)))
      else if ACTIVITY_TIMEOUT < fst (date_now (snd (date_now s))) - lastActivity s
      then (case showInactivityWarning (snd (date_now (snd (date_now s)))) of
              None \<Rightarrow> None
            | Some s3 \<Rightarrow> Some (False, s3))
      else Some (True, snd (date_now (snd (date_now s)))))"
  by (simp add: isAuthenticated.simps[of s] case_prod_beta Let_def)

text \<open>
  Once the inactivity test fails it fails again in the call that
  \<^verbatim>\<open>updateActivity\<close> makes, so the warning comes back on every OK: whichever
  of the three returns has gone through \<^verbatim>\<open>clearSession\<close>.
\<close>

lemma inactive_cleared:
  shows "inactive s \<Longrightarrow> isAuthenticated s = Some (b, s') \<Longrightarrow> \<not> b \<and> cleared s'"
    and "inactive s \<Longrightarrow> showInactivityWarning s = Some s' \<Longrightarrow> cleared s'"
    and "inactive s \<Longrightarrow> updateActivity s = Some s' \<Longrightarrow> cleared s'"
proof (induct s and s and s arbitrary: b s' and s' and s'
       rule: isAuthenticated_showInactivityWarning_updateActivity.induct)
  case (1 s)
  let ?s1 = "snd (date_now s)"
  let ?s2 = "snd (date_now ?s1)"
  have held: "currentUser s \<noteq> None" "truthy_num (sessionExpiry s)"
    and stale: "ACTIVITY_TIMEOUT < int (now s) - lastActivity s"
    using "1.prems"(1) by (simp_all add: inactive_def)
  show ?case
  proof (cases "the (sessionExpiry s) \<le> fst (date_now s)")
    case True
    then have "isAuthenticated s = Some (False, clearSession ?s1)"
      using held by (auto simp add: isAuthenticated_unfold[of s])
    then show ?thesis using "1.prems"(2) cleared_clearSession by auto
  next
    case False
    have in2: "inactive ?s2"
      using held stale by (auto simp add: inactive_def date_now_eq)
    have late: "ACTIVITY_TIMEOUT < fst (date_now ?s1) - lastActivity ?s2"
      using stale by (simp add: date_now_eq)
    have eq: "isAuthenticated s =
        (case showInactivityWarning ?s2 of None \<Rightarrow> None | Some s3 \<Rightarrow> Some (False, s3))"
      using held False late by (auto simp add: isAuthenticated_unfold[of s])
    from eq "1.prems"(2) obtain s3 where
      w: "showInactivityWarning ?s2 = Some s3" and r: "b = False" "s' = s3"
      by (auto split: option.splits)
    have "cleared s3"
      by (rule "1.hyps"[OF _ refl prod.collapse _ refl prod.collapse _ in2 w])
        (use held False late in auto)
    then show ?thesis using r by simp
  qed
next
  case (2 s)
  show ?case
  proof (cases "confirms s")
    case Nil
    then show ?thesis using "2.prems"(2) by (simp add: showInactivityWarning.simps[of s])
  next
    case (Cons a as)
    have in1: "inactive (s\<lparr>confirms := as\<rparr>)"
      using "2.prems"(1) by (simp add: inactive_def)
    show ?thesis
    proof (cases a)
      case True
      then have "updateActivity (s\<lparr>confirms := as\<rparr>) = Some s'"
        using "2.prems"(2) Cons by (simp add: showInactivityWarning.simps[of s])
      then show ?thesis using "2.hyps"[OF Cons True in1] by simp
    next
      case False
      then have "s' = logout (s\<lparr>confirms := as\<rparr>) False"
        using "2.prems"(2) Cons by (simp add: showInactivityWarning.simps[of s])
      then show ?thesis by (simp add: cleared_logout)
    qed
  qed
next
  case (3 s)
  from "3.prems"(2) obtain b s1 where a: "isAuthenticated s = Some (b, s1)"
    by (auto simp: updateActivity.simps[of s] split: option.splits)
  from "3.hyps"[OF "3.prems"(1) a] have nb: "\<not> b" and c: "cleared s1" by simp_all
  from "3.prems"(2) a nb have "s' = s1"
    by (simp add: updateActivity.simps[of s])
  then show ?case using c by simp
qed

text \<open>A call that returns false has changed nothing or has cleared the session.\<close>

lemma auth_false_shape:
  assumes "isAuthenticated s = Some (False, s')"
  shows "(s' = s \<and> (currentUser s = None \<or> \<not> truthy_num (sessionExpiry s))) \<or> cleared s'"
proof (cases "currentUser s = None \<or> \<not> truthy_num (sessionExpiry s)")
  case True
  then show ?thesis using assms by (auto simp add: isAuthenticated_unfold[of s])
next
  case held: False
  show ?thesis
  proof (cases "the (sessionExpiry s) \<le> fst (date_now s)")
    case True
    then show ?thesis using assms held cleared_clearSession
      by (auto simp add: isAuthenticated_unfold[of s])
  next
    case False
    let ?s2 = "snd (date_now (snd (date_now s)))"
    from assms held False
    have late: "ACTIVITY_TIMEOUT < fst (date_now (snd (date_now s))) - lastActivity s"
      and w: "showInactivityWarning ?s2 = Some s'"
      by (auto simp add: isAuthenticated_unfold[of s] split: if_splits option.splits)
    have "inactive ?s2"
      using held late by (auto simp add: inactive_def date_now_eq)
    then show ?thesis using inactive_cleared(2) w by blast
  qed
qed

lemma auth_cleared: "cleared s \<Longrightarrow> isAuthenticated s = Some (False, s)"
  by (simp add: isAuthenticated_unfold[of s] cleared_def)

text \<open>If the user cancels at some dialog, each of the three calls returns.\<close>

lemma cancel_returns:
  shows "False \<in> set (confirms s) \<Longrightarrow> isAuthenticated s \<noteq> None"
    and "False \<in> set (confirms s) \<Longrightarrow> showInactivityWarning s \<noteq> None"
    and "False \<in> set (confirms s) \<Longrightarrow> updateActivity s \<noteq> None"
proof (induct s and s and s
       rule: isAuthenticated_showInactivityWarning_updateActivity.induct)
  case (1 s)
  let ?s2 = "snd (date_now (snd (date_now s)))"
  show ?case
  proof (cases "\<not> (currentUser s = None \<or> \<not> truthy_num (sessionExpiry s)) \<and>
                \<not> the (sessionExpiry s) \<le> fst (date_now s) \<and>
                ACTIVITY_TIMEOUT < fst (date_now (snd (date_now s))) - lastActivity s")
    case True
    have "showInactivityWarning ?s2 \<noteq> None"
      by (rule "1.hyps"[OF _ refl prod.collapse _ refl prod.collapse])
        (use True "1.prems" in auto)
    then show ?thesis using True by (auto simp add: isAuthenticated_unfold[of s])
  next
    case False
    then show ?thesis by (auto simp add: isAuthenticated_unfold[of s])
  qed
next
  case (2 s)
  then show ?case
    by (cases "confirms s") (auto simp add: showInactivityWarning.simps[of s])
next
  case (3 s)
  then show ?case
    by (auto simp add: updateActivity.simps[of s] Let_def split: option.splits prod.splits)
qed

text \<open>
  If the user answers OK to every dialog and the session does not expire
  meanwhile, none of the three calls returns: no OK extends the session.
\<close>

lemma ok_never_returns:
  shows "inactive s \<Longrightarrow> \<forall>a \<in> set (confirms s). a \<Longrightarrow>
           int (now s + sum_list (ticks s)) < the (sessionExpiry s) \<Longrightarrow>
           isAuthenticated s = None"
    and "inactive s \<Longrightarrow> \<forall>a \<in> set (confirms s). a \<Longrightarrow>
           int (now s + sum_list (ticks s)) < the (sessionExpiry s) \<Longrightarrow>
           showInactivityWarning s = None"
    and "inactive s \<Longrightarrow> \<forall>a \<in> set (confirms s). a \<Longrightarrow>
           int (now s + sum_list (ticks s)) < the (sessionExpiry s) \<Longrightarrow>
           updateActivity s = None"
proof (induct s and s and s
       rule: isAuthenticated_showInactivityWarning_updateActivity.induct)
  case (1 s)
  let ?s1 = "snd (date_now s)"
  let ?s2 = "snd (date_now ?s1)"
  have held: "currentUser s \<noteq> None" "truthy_num (sessionExpiry s)"
    and stale: "ACTIVITY_TIMEOUT < int (now s) - lastActivity s"
    using "1.prems"(1) by (simp_all add: inactive_def)
  have sums: "now ?s2 + sum_list (ticks ?s2) = now s + sum_list (ticks s)"
    by (cases "ticks s"; cases "tl (ticks s)") (auto simp add: date_now_eq)
  have le: "now ?s1 \<le> now s + sum_list (ticks s)"
    by (cases "ticks s") (auto simp add: date_now_eq)
  have fresh: "\<not> the (sessionExpiry s) \<le> fst (date_now s)"
    using "1.prems"(3) le by (simp add: date_now_eq)
  have late: "ACTIVITY_TIMEOUT < fst (date_now ?s1) - lastActivity s"
    using stale by (simp add: date_now_eq)
  have in2: "inactive ?s2"
    using held stale by (auto simp add: inactive_def date_now_eq)
  have "showInactivityWarning ?s2 = None"
    by (rule "1.hyps"[OF _ refl prod.collapse _ refl prod.collapse _ in2])
      (use held fresh late "1.prems" sums in auto)
  then show ?case using held fresh late by (auto simp add: isAuthenticated_unfold[of s])
next
  case (2 s)
  show ?case
  proof (cases "confirms s")
    case Nil
    then show ?thesis by (simp add: showInactivityWarning.simps[of s])
  next
    case (Cons a as)
    then have a: a using "2.prems"(2) by simp
    have "updateActivity (s\<lparr>confirms := as\<rparr>) = None"
      by (rule "2.hyps"[OF Cons a]) (use "2.prems" Cons in \<open>auto simp add: inactive_def\<close>)
    then show ?thesis using Cons a by (simp add: showInactivityWarning.simps[of s])
  qed
next
  case (3 s)
  then show ?case by (simp add: updateActivity.simps[of s])
qed

lemma auth_true_shape:
  "isAuthenticated s = Some (True, s') \<Longrightarrow> s' = snd (date_now (snd (date_now s)))"
  by (auto simp add: isAuthenticated_unfold[of s] split: if_splits option.splits)

lemma auth_fresh:
  assumes "currentUser s \<noteq> None" and "sessionExpiry s = Some e" and "e \<noteq> 0"
    and "fst (date_now s) < e"
    and "fst (date_now (snd (date_now s))) - lastActivity s \<le> ACTIVITY_TIMEOUT"
  shows "isAuthenticated s = Some (True, snd (date_now (snd (date_now s))))"
  using assms by (auto simp add: isAuthenticated_unfold[of s])

text \<open>The time that passes over the next readings of the clock, one reading at a time.\<close>

lemma take2_sum: "sum_list (take 2 xs) = sum_list (take 1 xs) + sum_list (take 1 (drop 1 xs))"
  for xs :: "nat list"
  by (cases xs) simp_all

lemma take3_sum: "sum_list (take 3 xs) = sum_list (take 1 xs) + sum_list (take 2 (drop 1 xs))"
  for xs :: "nat list"
  by (cases xs) simp_all

lemma take4_sum: "sum_list (take 4 xs) = sum_list (take 1 xs) + sum_list (take 3 (drop 1 xs))"
  for xs :: "nat list"
  by (cases xs) simp_all

lemma take5_sum: "sum_list (take 5 xs) = sum_list (take 1 xs) + sum_list (take 4 (drop 1 xs))"
  for xs :: "nat list"
  by (cases xs) simp_all

lemma take6_sum: "sum_list (take 6 xs) = sum_list (take 1 xs) + sum_list (take 5 (drop 1 xs))"
  for xs :: "nat list"
  by (cases xs) simp_all

lemma take7_sum: "sum_list (take 7 xs) = sum_list (take 1 xs) + sum_list (take 6 (drop 1 xs))"
  for xs :: "nat list"
  by (cases xs) simp_all

lemmas take_sums = take2_sum take3_sum take4_sum take5_sum take6_sum take7_sum

section \<open>Creating a session\<close>

text \<open>Whichever of the two throws, only the clock has been read.\<close>

lemma createSession_throws:
  assumes "truthy (user_id u)" and "truthy (username u)"
    and "stringify_throws u \<or> storageFull s"
  shows "createSession s (Some u) = (False, snd (date_now (snd (date_now (snd (date_now s))))))"
  using assms
  by (auto simp add: createSession_def stringify_def setItem_def case_prod_beta Let_def)

text \<open>
  C1, as the code has it. For every user whose id and username are truthy
  (not undefined, null, false, zero or the empty string): when
  \<^verbatim>\<open>JSON.stringify\<close> serializes the user and \<^verbatim>\<open>localStorage.setItem\<close> accepts
  the record, \<^verbatim>\<open>createSession\<close> returns true, and when at most the inactivity
  threshold of thirty minutes passes over the seven clock readings of the
  three calls, \<^verbatim>\<open>isAuthenticated\<close> then returns true and \<^verbatim>\<open>getCurrentUser\<close>,
  called after it or in its place, returns that same user. When
  \<^verbatim>\<open>JSON.stringify\<close> or \<^verbatim>\<open>setItem\<close> throws, \<^verbatim>\<open>createSession\<close> returns false,
  and the user, the expiry and the last activity in memory and the storage are
  as before the call.
\<close>

theorem createSession_then_authenticated:
  assumes "truthy (user_id u)" and "truthy (username u)"
  shows "(\<not> stringify_throws u \<and> \<not> storageFull s \<and>
          int (sum_list (take 7 (ticks s))) \<le> ACTIVITY_TIMEOUT
          \<longrightarrow> (\<exists>s1 s2 s3. createSession s (Some u) = (True, s1) \<and>
                 isAuthenticated s1 = Some (True, s2) \<and>
                 getCurrentUser s2 = Some (Some u, s3) \<and>
                 getCurrentUser s1 = Some (Some u, s2))) \<and>
         (stringify_throws u \<or> storageFull s
          \<longrightarrow> (\<exists>s1. createSession s (Some u) = (False, s1) \<and>
                 currentUser s1 = currentUser s \<and> sessionExpiry s1 = sessionExpiry s \<and>
                 lastActivity s1 = lastActivity s \<and> localStorage s1 = localStorage s))"
proof (intro conjI impI)
  assume h: "\<not> stringify_throws u \<and> \<not> storageFull s \<and>
          int (sum_list (take 7 (ticks s))) \<le> ACTIVITY_TIMEOUT"
  let ?r = "\<lambda>s. snd (date_now s)"
  let ?t2 = "fst (date_now (?r s))"
  let ?t3 = "fst (date_now (?r (?r s)))"
  let ?sd = "\<lparr>user = Some u, loginTime = Some (fst (date_now s)),
               expiry = Some (?t2 + SESSION_TIMEOUT), stored_lastActivity = Some ?t3\<rparr>"
  obtain encoded where encoded: "stringify ?sd = Some encoded"
    using h by (simp add: stringify_def)
  let ?s1 = "(?r (?r (?r s)))\<lparr>localStorage := (localStorage s)(SESSION_KEY \<mapsto> encoded),
               currentUser := Some u, sessionExpiry := Some (?t2 + SESSION_TIMEOUT),
               lastActivity := ?t3\<rparr>"
  let ?s2 = "?r (?r ?s1)"
  let ?s3 = "?r (?r ?s2)"
  have c: "createSession s (Some u) = (True, ?s1)"
    using assms h encoded by (simp add: createSession_def setItem_def case_prod_beta Let_def)
  have a1: "isAuthenticated ?s1 = Some (True, ?s2)"
    by (rule auth_fresh[where e = "?t2 + SESSION_TIMEOUT"])
      (use h in \<open>simp_all add: date_now_eq take_sums SESSION_TIMEOUT_def
          ACTIVITY_TIMEOUT_def\<close>)
  have a2: "isAuthenticated ?s2 = Some (True, ?s3)"
    by (rule auth_fresh[where e = "?t2 + SESSION_TIMEOUT"])
      (use h in \<open>simp_all add: date_now_eq take_sums SESSION_TIMEOUT_def
          ACTIVITY_TIMEOUT_def\<close>)
  have "getCurrentUser ?s2 = Some (Some u, ?s3)"
    using a2 by (simp add: getCurrentUser_def)
  moreover have "getCurrentUser ?s1 = Some (Some u, ?s2)"
    using a1 by (simp add: getCurrentUser_def)
  ultimately show "\<exists>s1 s2 s3. createSession s (Some u) = (True, s1) \<and>
                 isAuthenticated s1 = Some (True, s2) \<and>
                 getCurrentUser s2 = Some (Some u, s3) \<and>
                 getCurrentUser s1 = Some (Some u, s2)"
    using c a1 by blast
next
  assume "stringify_throws u \<or> storageFull s"
  then show "\<exists>s1. createSession s (Some u) = (False, s1) \<and>
                 currentUser s1 = currentUser s \<and> sessionExpiry s1 = sessionExpiry s \<and>
                 lastActivity s1 = lastActivity s \<and> localStorage s1 = localStorage s"
    using createSession_throws[OF assms] by simp
qed

theorem createSession_then_authenticated_witness:
  "truthy (user_id alice) \<and> truthy (username alice) \<and>
   (\<exists>s1 s2 s3. createSession (login_page\<lparr>ticks := [1, 0, 2, 5000, 1, 700, 1]\<rparr>) (Some alice)
                  = (True, s1) \<and>
      isAuthenticated s1 = Some (True, s2) \<and>
      getCurrentUser s2 = Some (Some alice, s3) \<and>
      getCurrentUser s1 = Some (Some alice, s2)) \<and>
   (\<exists>s1. createSession (login_page\<lparr>storageFull := True\<rparr>) (Some alice) = (False, s1) \<and>
      currentUser s1 = None \<and> localStorage s1 SESSION_KEY = None)"
proof -
  have t: "truthy (user_id alice)" "truthy (username alice)"
    by (simp_all add: alice_def)
  have a: "\<not> stringify_throws alice \<and>
        \<not> storageFull (login_page\<lparr>ticks := [1, 0, 2, 5000, 1, 700, 1]\<rparr>) \<and>
        int (sum_list (take 7 (ticks (login_page\<lparr>ticks := [1, 0, 2, 5000, 1, 700, 1]\<rparr>))))
          \<le> ACTIVITY_TIMEOUT"
    by (simp add: alice_def stringify_throws_def login_page_def page0_def ACTIVITY_TIMEOUT_def)
  have b: "stringify_throws alice \<or> storageFull (login_page\<lparr>storageFull := True\<rparr>)"
    by simp
  have e: "currentUser (login_page\<lparr>storageFull := True\<rparr>) = None"
    "localStorage (login_page\<lparr>storageFull := True\<rparr>) SESSION_KEY = None"
    by (simp_all add: login_page_def)
  show ?thesis
    using createSession_then_authenticated
      [OF t, of "login_page\<lparr>ticks := [1, 0, 2, 5000, 1, 700, 1]\<rparr>"]
      createSession_then_authenticated [OF t, of "login_page\<lparr>storageFull := True\<rparr>"]
      a b e t
    by (metis (no_types, lifting))
qed

text \<open>
  C1 as stated fails for a user with an id and a username where the storage
  is full, where the id is a BigInt and where a property of the user contains
  itself: \<^verbatim>\<open>setItem\<close> or \<^verbatim>\<open>JSON.stringify\<close> throws and the \<^verbatim>\<open>catch\<close> returns
  false.
\<close>

theorem createSession_storage_full_counterexample:
  "truthy (user_id alice) \<and> truthy (username alice) \<and>
   fst (createSession (login_page\<lparr>storageFull := True\<rparr>) (Some alice)) = False \<and>
   truthy (user_id big_id_user) \<and> truthy (username big_id_user) \<and>
   fst (createSession login_page (Some big_id_user)) = False \<and>
   truthy (user_id looped_user) \<and> truthy (username looped_user) \<and>
   fst (createSession login_page (Some looped_user)) = False"
  by (simp add: createSession_def setItem_def stringify_def stringify_throws_def date_now_eq
      alice_def big_id_user_def looped_user_def login_page_def page0_def)

text \<open>
  C7. For an argument that is null, or whose id or username is missing or
  falsy, \<^verbatim>\<open>createSession\<close> returns false and the state after the call is the
  state before it: the manager's fields, the storage and all the rest.
\<close>

theorem createSession_malformed_noop:
  assumes "usr = None \<or> (\<exists>u. usr = Some u \<and> (\<not> truthy (user_id u) \<or> \<not> truthy (username u)))"
  shows "createSession s usr = (False, s)"
  using assms by (auto simp add: createSession_def)

theorem createSession_malformed_noop_witness:
  "createSession page0 (Some (alice\<lparr>user_id := JStr []\<rparr>)) = (False, page0) \<and>
   createSession page0 (Some (alice\<lparr>username := JUndefined\<rparr>)) = (False, page0) \<and>
   createSession page0 None = (False, page0)"
  using createSession_malformed_noop[of "Some (alice\<lparr>user_id := JStr []\<rparr>)" page0]
    createSession_malformed_noop[of "Some (alice\<lparr>username := JUndefined\<rparr>)" page0]
    createSession_malformed_noop[of None page0]
  by simp

section \<open>Clearing, expiry and inactivity\<close>

text \<open>
  C8. After \<^verbatim>\<open>clearSession\<close> there is no user and no expiry in memory and no
  record under the key, and a second call leaves these as the first left them:
  all it changes is the clock it reads and \<open>lastActivity\<close>, which takes that
  reading.
\<close>

theorem clearSession_twice:
  "currentUser (clearSession s) = None \<and> sessionExpiry (clearSession s) = None \<and>
   localStorage (clearSession s) SESSION_KEY = None \<and>
   currentUser (clearSession (clearSession s)) = currentUser (clearSession s) \<and>
   sessionExpiry (clearSession (clearSession s)) = sessionExpiry (clearSession s) \<and>
   localStorage (clearSession (clearSession s)) = localStorage (clearSession s) \<and>
   clearSession (clearSession s) =
     (snd (date_now (clearSession s)))\<lparr>lastActivity := fst (date_now (clearSession s))\<rparr>"
  by (simp add: clearSession_def removeItem_def date_now_eq)

theorem clearSession_twice_witness:
  "localStorage page0 SESSION_KEY \<noteq> None \<and>
   localStorage (clearSession page0) SESSION_KEY = None \<and>
   localStorage (clearSession (clearSession page0)) = localStorage (clearSession page0) \<and>
   currentUser (clearSession (clearSession page0)) = None"
  using clearSession_twice[of page0] by (simp add: page0_def)

text \<open>
  C2. When the manager holds a session whose expiry is not after the clock
  reading of the call, \<^verbatim>\<open>isAuthenticated\<close> returns false, and the record under
  the session key is removed, with the user and the expiry in memory.
\<close>

theorem expired_is_cleared:
  assumes "currentUser s \<noteq> None" and "sessionExpiry s = Some e" and "e \<noteq> 0"
    and "e \<le> fst (date_now s)"
  shows "\<exists>s'. isAuthenticated s = Some (False, s') \<and> localStorage s' SESSION_KEY = None \<and>
              currentUser s' = None \<and> sessionExpiry s' = None"
  using assms cleared_clearSession[of "snd (date_now s)"]
  by (auto simp add: isAuthenticated_unfold[of s] cleared_def)

theorem expired_is_cleared_witness:
  "localStorage (page0\<lparr>now := 1700086400000\<rparr>) SESSION_KEY \<noteq> None \<and>
   (\<exists>s'. isAuthenticated (page0\<lparr>now := 1700086400000\<rparr>) = Some (False, s') \<and>
         localStorage s' SESSION_KEY = None \<and> currentUser s' = None \<and> sessionExpiry s' = None)"
  using expired_is_cleared[of "page0\<lparr>now := 1700086400000\<rparr>" 1700086400000]
  by (simp add: page0_def date_now_eq)

text \<open>
  C4, what the code does. When the session held has not expired and the last
  activity is more than thirty minutes behind the clock, a call of
  \<^verbatim>\<open>isAuthenticated\<close> that returns returns false, and by then the record under
  the session key is removed and the user and the expiry in memory are gone:
  the call returns only through Cancel or through an expiry during the dialogs.
\<close>

theorem inactivity_always_clears:
  assumes "currentUser s \<noteq> None" and "sessionExpiry s = Some e" and "e \<noteq> 0"
    and "fst (date_now s) < e"
    and "ACTIVITY_TIMEOUT < fst (date_now (snd (date_now s))) - lastActivity s"
    and "isAuthenticated s = Some (b, s')"
  shows "\<not> b \<and> currentUser s' = None \<and> sessionExpiry s' = None \<and>
         localStorage s' SESSION_KEY = None"
proof -
  let ?s2 = "snd (date_now (snd (date_now s)))"
  from assms have w: "showInactivityWarning ?s2 = Some s'" and b: "\<not> b"
    by (auto simp add: isAuthenticated_unfold[of s] split: option.splits)
  have "inactive ?s2"
    using assms by (auto simp add: inactive_def date_now_eq)
  then have "cleared s'" using inactive_cleared(2) w by blast
  then show ?thesis using b by (simp add: cleared_def)
qed

lemma idle_ok_cancel:
  "\<exists>s'. isAuthenticated (idle\<lparr>confirms := [True, False]\<rparr>) = Some (False, s')"
  by (simp add: isAuthenticated_unfold showInactivityWarning.simps updateActivity.simps
      idle_def page0_def date_now_eq ACTIVITY_TIMEOUT_def)

text \<open>OK three times, and no further answer: the fourth dialog stays open.\<close>

lemma idle_ok_blocks: "isAuthenticated (idle\<lparr>confirms := [True, True, True]\<rparr>) = None"
  by (rule ok_never_returns(1))
    (simp_all add: inactive_def idle_def page0_def ACTIVITY_TIMEOUT_def)

theorem inactivity_always_clears_witness:
  "localStorage (idle\<lparr>confirms := [True, False]\<rparr>) SESSION_KEY = Some (Json (Some session0)) \<and>
   (\<exists>s'. isAuthenticated (idle\<lparr>confirms := [True, False]\<rparr>) = Some (False, s') \<and>
         currentUser s' = None \<and> sessionExpiry s' = None \<and>
         localStorage s' SESSION_KEY = None)"
proof -
  let ?s = "idle\<lparr>confirms := [True, False]\<rparr>"
  obtain s' where a: "isAuthenticated ?s = Some (False, s')"
    using idle_ok_cancel by blast
  have "\<not> False \<and> currentUser s' = None \<and> sessionExpiry s' = None \<and>
        localStorage s' SESSION_KEY = None"
    by (rule inactivity_always_clears[of ?s 1700086400000, OF _ _ _ _ _ a])
      (simp_all add: idle_def page0_def date_now_eq ACTIVITY_TIMEOUT_def)
  moreover have "localStorage ?s SESSION_KEY = Some (Json (Some session0))"
    by (simp add: idle_def page0_def)
  ultimately show ?thesis using a by blast
qed

text \<open>
  C9. Whenever \<^verbatim>\<open>isAuthenticated\<close> returns false, \<^verbatim>\<open>getCurrentUser\<close> called in
  the same state returns null, and so does \<^verbatim>\<open>getCurrentUser\<close> called after it.
\<close>

theorem unauthenticated_user_is_null:
  assumes "isAuthenticated s = Some (False, s')"
  shows "getCurrentUser s = Some (None, s') \<and> getCurrentUser s' = Some (None, s')"
proof -
  have "isAuthenticated s' = Some (False, s')"
    using auth_false_shape[OF assms] assms auth_cleared by auto
  then show ?thesis using assms by (simp add: getCurrentUser_def)
qed

lemma idle_cancel:
  "\<exists>s'. isAuthenticated (idle\<lparr>confirms := [False]\<rparr>) = Some (False, s')"
  by (simp add: isAuthenticated_unfold showInactivityWarning.simps
      idle_def page0_def date_now_eq ACTIVITY_TIMEOUT_def)

theorem unauthenticated_user_is_null_witness:
  "currentUser (idle\<lparr>confirms := [False]\<rparr>) = Some alice \<and>
   (\<exists>s'. isAuthenticated (idle\<lparr>confirms := [False]\<rparr>) = Some (False, s') \<and>
         getCurrentUser (idle\<lparr>confirms := [False]\<rparr>) = Some (None, s') \<and>
         getCurrentUser s' = Some (None, s'))"
proof -
  obtain s' where a: "isAuthenticated (idle\<lparr>confirms := [False]\<rparr>) = Some (False, s')"
    using idle_cancel by blast
  have "currentUser (idle\<lparr>confirms := [False]\<rparr>) = Some alice"
    by (simp add: idle_def page0_def)
  then show ?thesis using a unauthenticated_user_is_null[OF a] by blast
qed

section \<open>Initialization\<close>

lemma cleared_absent: "cleared s \<Longrightarrow> absent_or_complete s"
  by (simp add: cleared_def absent_or_complete_def)

lemma isSessionValid_complete:
  "fst (isSessionValid (Some sd) s) \<Longrightarrow> structurally_complete sd"
  by (auto simp add: isSessionValid_def structurally_complete_def case_prod_beta
      split: option.splits if_splits)

lemma isSessionValid_incomplete:
  "\<not> structurally_complete sd \<Longrightarrow> \<not> fst (isSessionValid (Some sd) s)"
  using isSessionValid_complete by blast

lemma isSessionValid_storage [simp]:
  "localStorage (snd (isSessionValid v s)) = localStorage s"
  by (auto simp add: isSessionValid_def case_prod_beta split: option.splits)

lemma stringify_complete:
  assumes "stringify sd = Some encoded"
  shows "\<exists>sd'. encoded = Json (Some sd') \<and>
               structurally_complete sd' = structurally_complete sd"
proof (cases "user sd")
  case None
  then show ?thesis using assms by (auto simp add: stringify_def)
next
  case (Some u)
  let ?sd' = "sd\<lparr>user := Some (u\<lparr>others := filter (\<lambda>(k, v). v \<noteq> Plain JUndefined) (others u)\<rparr>)\<rparr>"
  have "encoded = Json (Some ?sd')"
    using assms Some by (simp add: stringify_def split: if_splits)
  moreover have "structurally_complete ?sd' = structurally_complete sd"
    using Some by (simp add: structurally_complete_def)
  ultimately show ?thesis by blast
qed

lemma updateActivity_storage:
  assumes "updateActivity s = Some s'" and "absent_or_complete s"
  shows "absent_or_complete s'"
proof -
  from assms(1) obtain b s1 where a: "isAuthenticated s = Some (b, s1)"
    by (auto simp add: updateActivity.simps[of s] split: option.splits)
  show ?thesis
  proof (cases b)
    case False
    then have "s' = s1" using assms(1) a by (simp add: updateActivity.simps[of s])
    then show ?thesis
      using auth_false_shape[of s s1] a False assms(2) cleared_absent by auto
  next
    case True
    then have s1: "s1 = snd (date_now (snd (date_now s)))"
      using a auth_true_shape[of s s1] by simp
    let ?s3 = "(snd (date_now s1))\<lparr>lastActivity := fst (date_now s1)\<rparr>"
    have st3: "localStorage ?s3 = localStorage s" by (simp add: s1)
    show ?thesis
    proof (cases "fst (getStoredSession ?s3)")
      case None
      then have "s' = snd (getStoredSession ?s3)"
        using assms(1) a True
        by (simp add: updateActivity.simps[of s] case_prod_beta Let_def)
      then show ?thesis
        using assms(2) st3
        by (auto simp add: getStoredSession_def absent_or_complete_def removeItem_def
            split: option.splits item.splits)
    next
      case (Some sd)
      then have g: "getStoredSession ?s3 = (Some sd, ?s3)"
        and stored: "localStorage s SESSION_KEY = Some (Json (Some sd))"
        using st3 by (auto simp add: getStoredSession_def split: option.splits item.splits)
      have c: "structurally_complete sd"
        using assms(2) stored by (simp add: absent_or_complete_def)
      let ?t' = "fst (date_now ?s3)"
      let ?s5 = "snd (date_now ?s3)"
      let ?sd' = "sd\<lparr>stored_lastActivity := Some (lastActivity ?s5),
                       expiry := Some (?t' + SESSION_TIMEOUT)\<rparr>"
      let ?s6 = "?s5\<lparr>sessionExpiry := expiry ?sd'\<rparr>"
      have st6: "localStorage ?s6 = localStorage s" using st3 by simp
      have c': "structurally_complete ?sd'"
        using c by (simp add: structurally_complete_def date_now_eq SESSION_TIMEOUT_def)
      have u: "Some s' = (case stringify ?sd' of None \<Rightarrow> Some ?s6
                 | Some encoded \<Rightarrow> (case setItem ?s6 SESSION_KEY encoded of
                                      None \<Rightarrow> Some ?s6 | Some s7 \<Rightarrow> Some s7))"
        using assms(1) a True g
        by (simp add: updateActivity.simps[of s] case_prod_beta Let_def)
      show ?thesis
      proof (cases "stringify ?sd'")
        case None
        then have "s' = ?s6" using u by simp
        then show ?thesis using assms(2) st6 by (simp add: absent_or_complete_def)
      next
        case (Some encoded)
        then obtain sd2 where e: "encoded = Json (Some sd2)" and c2: "structurally_complete sd2"
          using stringify_complete c' by blast
        show ?thesis
        proof (cases "storageFull ?s6")
          case True
          then have "s' = ?s6" using u Some by (simp add: setItem_def)
          then show ?thesis using assms(2) st6 by (simp add: absent_or_complete_def)
        next
          case False
          then have "s' = ?s6\<lparr>localStorage := (localStorage ?s6)(SESSION_KEY \<mapsto> encoded)\<rparr>"
            using u Some by (simp add: setItem_def)
          then show ?thesis using e c2 by (simp add: absent_or_complete_def)
        qed
      qed
    qed
  qed
qed

lemma init_rejects:
  assumes "\<not> isInitialized s"
    and "fst (getStoredSession s) = None \<or>
         \<not> fst (isSessionValid (fst (getStoredSession s)) (snd (getStoredSession s)))"
  shows "initializeSession s =
           Some (False,
             (clearSession (snd (isSessionValid (fst (getStoredSession s))
                                   (snd (getStoredSession s)))))\<lparr>isInitialized := True\<rparr>)"
  using assms
  by (auto simp add: initializeSession_def case_prod_beta Let_def isSessionValid_def
      split: option.splits bool.splits)

lemma init_invariant:
  assumes "\<not> isInitialized s" and "initializeSession s = Some (b, s')"
  shows "absent_or_complete s'"
proof (cases "fst (getStoredSession s) = None \<or>
         \<not> fst (isSessionValid (fst (getStoredSession s)) (snd (getStoredSession s)))")
  case True
  from init_rejects[OF assms(1) True] assms(2) cleared_clearSession
  show ?thesis by (auto simp add: absent_or_complete_def cleared_def)
next
  case False
  then obtain sd where sd: "fst (getStoredSession s) = Some sd"
    and valid: "fst (isSessionValid (Some sd) (snd (getStoredSession s)))"
    by auto
  have stored: "localStorage s SESSION_KEY = Some (Json (Some sd))"
    and same: "snd (getStoredSession s) = s"
    using sd by (auto simp add: getStoredSession_def split: option.splits item.splits)
  let ?s2 = "snd (isSessionValid (Some sd) s)"
  let ?s3 = "?s2\<lparr>currentUser := user sd, sessionExpiry := expiry sd\<rparr>"
  let ?p = "if truthy_num (stored_lastActivity sd)
            then (the (stored_lastActivity sd), ?s3) else date_now ?s3"
  let ?s5 = "(snd ?p)\<lparr>lastActivity := fst ?p\<rparr>"
  have ok5: "absent_or_complete ?s5"
    using stored isSessionValid_complete[OF valid]
    by (simp add: absent_or_complete_def)
  from assms valid sd same obtain s6 where u: "updateActivity ?s5 = Some s6"
    and s': "s' = s6\<lparr>isInitialized := True\<rparr>"
    by (auto simp add: initializeSession_def case_prod_beta Let_def split: option.splits)
  have "absent_or_complete s6" by (rule updateActivity_storage[OF u ok5])
  then show ?thesis by (simp add: s' absent_or_complete_def)
qed

lemma init_incomplete:
  assumes "\<not> isInitialized s" and "\<not> stored_complete s"
  shows "\<exists>s'. initializeSession s = Some (False, s') \<and> cleared s' \<and> isInitialized s' \<and>
              isAuthenticated s' = Some (False, s')"
proof -
  let ?g = "getStoredSession s"
  let ?s' = "(clearSession (snd (isSessionValid (fst ?g) (snd ?g))))\<lparr>isInitialized := True\<rparr>"
  have "fst ?g = None \<or> \<not> fst (isSessionValid (fst ?g) (snd ?g))"
  proof (cases "fst ?g")
    case None
    then show ?thesis by simp
  next
    case (Some sd)
    then have "localStorage s SESSION_KEY = Some (Json (Some sd))"
      by (auto simp add: getStoredSession_def split: option.splits item.splits)
    then have "\<not> structurally_complete sd"
      using assms(2) by (simp add: stored_complete_def)
    then show ?thesis using Some isSessionValid_incomplete by simp
  qed
  then have i: "initializeSession s = Some (False, ?s')"
    by (rule init_rejects[OF assms(1)])
  have c: "cleared ?s'"
    using cleared_clearSession[of "snd (isSessionValid (fst ?g) (snd ?g))"]
    by (simp add: cleared_def)
  then have "isAuthenticated ?s' = Some (False, ?s')" by (rule auth_cleared)
  then show ?thesis using i c by auto
qed

text \<open>The constructor meets such a record as \<^verbatim>\<open>initializeSession\<close> does.\<close>

lemma constructor_incomplete:
  assumes "\<not> stored_complete s"
  shows "\<exists>s'. constructor s = Some s' \<and> cleared s' \<and> isAuthenticated s' = Some (False, s')"
proof -
  let ?s3 = "(snd (date_now (s\<lparr>currentUser := None, sessionExpiry := None\<rparr>)))
               \<lparr>lastActivity := fst (date_now (s\<lparr>currentUser := None, sessionExpiry := None\<rparr>)),
                 isInitialized := False\<rparr>"
  have "\<not> isInitialized ?s3" by simp
  moreover have "\<not> stored_complete ?s3" using assms by (simp add: stored_complete_def)
  ultimately obtain s' where "initializeSession ?s3 = Some (False, s')" "cleared s'"
    "isAuthenticated s' = Some (False, s')"
    using init_incomplete by blast
  then show ?thesis by (simp add: constructor_def case_prod_beta Let_def)
qed

text \<open>
  C5. At initialization, whatever the key holds that is not a structurally
  complete record (a record that lacks a user, a user id, a username or an
  expiry, as well as a text that does not parse) is treated as absent:
  \<^verbatim>\<open>initializeSession\<close> returns false, no user and no expiry are in memory,
  the storage key is removed and \<^verbatim>\<open>isAuthenticated\<close> returns false. Whatever
  was stored, after an initialization that returns the record under the key is
  absent or complete.
\<close>

theorem incomplete_record_is_absent:
  assumes "\<not> isInitialized s"
  shows "(\<not> stored_complete s
            \<longrightarrow> (\<exists>s'. initializeSession s = Some (False, s') \<and> currentUser s' = None \<and>
                       sessionExpiry s' = None \<and> localStorage s' SESSION_KEY = None \<and>
                       isAuthenticated s' = Some (False, s'))) \<and>
         (\<forall>b s'. initializeSession s = Some (b, s') \<longrightarrow> absent_or_complete s')"
  using init_incomplete[OF assms] init_invariant[OF assms]
  by (auto simp add: cleared_def)

theorem incomplete_record_is_absent_witness:
  "localStorage no_id_page SESSION_KEY \<noteq> None \<and> \<not> stored_complete no_id_page \<and>
   (\<exists>s'. initializeSession no_id_page = Some (False, s') \<and> currentUser s' = None \<and>
         sessionExpiry s' = None \<and> localStorage s' SESSION_KEY = None \<and>
         isAuthenticated s' = Some (False, s') \<and> absent_or_complete s')"
proof -
  have n: "\<not> isInitialized no_id_page"
    by (simp add: no_id_page_def login_page_def)
  have h: "localStorage no_id_page SESSION_KEY \<noteq> None \<and> \<not> stored_complete no_id_page"
    by (simp add: no_id_page_def login_page_def stored_complete_def structurally_complete_def
        session0_def)
  from incomplete_record_is_absent[OF n] h show ?thesis by fastforce
qed

section \<open>Protecting a page\<close>

lemma getElementById_update:
  "(\<And>e. elem_id (f e) = elem_id e) \<Longrightarrow>
   getElementById (update_by_id i f els) j =
     (if i = j then map_option f (getElementById els j) else getElementById els j)"
  by (induction els) (auto simp add: getElementById_def)

lemma getElementById_map:
  "(\<And>e. elem_id (g e) = elem_id e) \<Longrightarrow>
   getElementById (map g els) j = map_option g (getElementById els j)"
  by (induction els) (auto simp add: getElementById_def)

lemma elem_id_classList [simp]:
  "elem_id (classList_add c e) = elem_id e"
  "elem_id (classList_remove c e) = elem_id e"
  by (simp_all add: classList_add_def classList_remove_def)

lemma set_classList [simp]:
  "set (classList (classList_add c e)) = insert c (set (classList e))"
  "set (classList (classList_remove c e)) = set (classList e) - {c}"
  by (auto simp add: classList_add_def classList_remove_def)

lemma content_classList [simp]:
  "content (classList_add c e) = content e"
  "content (classList_remove c e) = content e"
  by (simp_all add: classList_add_def classList_remove_def)

lemma map_update_by_id:
  "(\<And>e. p (f e) = p e) \<Longrightarrow> map p (update_by_id i f els) = map p els"
  by (induction els) auto

lemma length_update_by_id [simp]: "length (update_by_id i f els) = length els"
  by (induction els) auto

lemma nth_update_by_id:
  "n < length els \<Longrightarrow> elem_id (els ! n) \<noteq> i \<Longrightarrow> update_by_id i f els ! n = els ! n"
  by (induction els arbitrary: n) (auto simp add: nth_Cons split: nat.splits)

lemma show_missing:
  assumes "getElementById (document s) ''loginScreen'' = None \<or>
           getElementById (document s) ''adminDashboard'' = None"
  shows "showLoginForm s = s" and "showAdminContent s = s"
  using assms by (auto simp add: showLoginForm_def showAdminContent_def split: option.splits)

text \<open>Neither function touches anything but the document, nor the ids in it.\<close>

lemma show_frame:
  "(showLoginForm s)\<lparr>document := document s\<rparr> = s"
  "(showAdminContent s)\<lparr>document := document s\<rparr> = s"
  "map elem_id (document (showLoginForm s)) = map elem_id (document s)"
  "map elem_id (document (showAdminContent s)) = map elem_id (document s)"
  "map content (document (showLoginForm s)) = map content (document s)"
  by (auto simp add: showLoginForm_def showAdminContent_def updateUserDisplay_def Let_def
      map_update_by_id comp_def split: option.splits)

lemma updateUserDisplay_nth:
  assumes "n < length (document s)"
  shows "classList (document (updateUserDisplay s) ! n) = classList (document s ! n)"
    and "display (document (updateUserDisplay s) ! n) = display (document s ! n)"
proof -
  have "map classList (document (updateUserDisplay s)) = map classList (document s)"
    "map display (document (updateUserDisplay s)) = map display (document s)"
    by (auto simp add: updateUserDisplay_def Let_def map_update_by_id comp_def
        split: option.splits)
  moreover have "length (document (updateUserDisplay s)) = length (document s)"
    by (auto simp add: updateUserDisplay_def Let_def split: option.splits)
  ultimately show "classList (document (updateUserDisplay s) ! n) = classList (document s ! n)"
    and "display (document (updateUserDisplay s) ! n) = display (document s ! n)"
    using assms by (metis nth_map)+
qed

text \<open>The elements that are neither container keep their classes and their display.\<close>

lemma show_others:
  assumes "n < length (document s)"
    and "elem_id (document s ! n) \<noteq> ''loginScreen''"
    and "elem_id (document s ! n) \<noteq> ''adminDashboard''"
  shows "classList (document (showLoginForm s) ! n) = classList (document s ! n)"
    and "display (document (showLoginForm s) ! n) = display (document s ! n)"
    and "classList (document (showAdminContent s) ! n) = classList (document s ! n)"
    and "display (document (showAdminContent s) ! n) = display (document s ! n)"
  using assms
  by (auto simp add: showLoginForm_def showAdminContent_def updateUserDisplay_nth
      nth_update_by_id split: option.splits)

text \<open>Where both containers are in the document, both are still there, toggled.\<close>

lemma showLoginForm_toggles:
  assumes "getElementById (document s) ''loginScreen'' = Some l"
    and "getElementById (document s) ''adminDashboard'' = Some a"
  shows "\<exists>l' a'. getElementById (document (showLoginForm s)) ''loginScreen'' = Some l' \<and>
           getElementById (document (showLoginForm s)) ''adminDashboard'' = Some a' \<and>
           ''hidden'' \<notin> set (classList l') \<and> display l' = ''block'' \<and>
           ''hidden'' \<in> set (classList a') \<and> display a' = ''none'' \<and>
           set (classList l') - {''hidden''} = set (classList l) - {''hidden''} \<and>
           set (classList a') - {''hidden''} = set (classList a) - {''hidden''}"
  using assms by (simp add: showLoginForm_def getElementById_update)

lemma showAdminContent_toggles:
  assumes "getElementById (document s) ''loginScreen'' = Some l"
    and "getElementById (document s) ''adminDashboard'' = Some a"
  shows "\<exists>l' a'. getElementById (document (showAdminContent s)) ''loginScreen'' = Some l' \<and>
           getElementById (document (showAdminContent s)) ''adminDashboard'' = Some a' \<and>
           ''hidden'' \<in> set (classList l') \<and> display l' = ''none'' \<and>
           ''hidden'' \<notin> set (classList a') \<and> display a' = ''block'' \<and>
           set (classList l') - {''hidden''} = set (classList l) - {''hidden''} \<and>
           set (classList a') - {''hidden''} = set (classList a) - {''hidden''}"
  using assms
  by (auto simp add: showAdminContent_def updateUserDisplay_def Let_def
      getElementById_update getElementById_map split: option.splits)

text \<open>
  C3. On a path whose last segment is not one of the admin pages and that
  does not contain \<^verbatim>\<open>/admin\<close> (no segment begins with admin),
  \<^verbatim>\<open>protectPage\<close> returns true and leaves the whole state, the document
  included, as it was. On every other path it returns what \<^verbatim>\<open>isAuthenticated\<close>
  returns, after \<^verbatim>\<open>showAdminContent\<close> or \<^verbatim>\<open>showLoginForm\<close>, which change the
  document alone and keep its elements: where the document has the login
  screen and the dashboard, both are still there, the login screen hidden
  (class \<^verbatim>\<open>hidden\<close>, display \<^verbatim>\<open>none\<close>) and the dashboard shown (no class
  \<^verbatim>\<open>hidden\<close>, display \<^verbatim>\<open>block\<close>) when that boolean is true, the reverse when it
  is false, their other classes kept, and every other element keeps its
  classes and its display; where one of the two is missing, nothing changes.
\<close>

theorem protectPage_guard:
  "(pop (split_on (CHR ''/'') (pathname s)) \<notin> set adminPages \<and>
      \<not> includes_str (pathname s) ''/admin''
    \<longrightarrow> protectPage s = Some (True, s)) \<and>
   (pop (split_on (CHR ''/'') (pathname s)) \<in> set adminPages \<or>
      includes_str (pathname s) ''/admin''
    \<longrightarrow> (isAuthenticated s = None \<longrightarrow> protectPage s = None) \<and>
        (\<forall>b s1. isAuthenticated s = Some (b, s1) \<longrightarrow>
           (\<exists>s'. protectPage s = Some (b, s') \<and>
                 s' = (if b then showAdminContent s1 else showLoginForm s1) \<and>
                 s'\<lparr>document := document s1\<rparr> = s1 \<and>
                 map elem_id (document s') = map elem_id (document s1) \<and>
                 (\<forall>l a. getElementById (document s1) ''loginScreen'' = Some l \<and>
                        getElementById (document s1) ''adminDashboard'' = Some a \<longrightarrow>
                    (\<exists>l' a'. getElementById (document s') ''loginScreen'' = Some l' \<and>
                       getElementById (document s') ''adminDashboard'' = Some a' \<and>
                       (''hidden'' \<in> set (classList l')) = b \<and>
                       display l' = (if b then ''none'' else ''block'') \<and>
                       (''hidden'' \<in> set (classList a')) = (\<not> b) \<and>
                       display a' = (if b then ''block'' else ''none'') \<and>
                       set (classList l') - {''hidden''} = set (classList l) - {''hidden''} \<and>
                       set (classList a') - {''hidden''} = set (classList a) - {''hidden''})) \<and>
                 (\<forall>n. n < length (document s1) \<and>
                      elem_id (document s1 ! n) \<noteq> ''loginScreen'' \<and>
                      elem_id (document s1 ! n) \<noteq> ''adminDashboard'' \<longrightarrow>
                    classList (document s' ! n) = classList (document s1 ! n) \<and>
                    display (document s' ! n) = display (document s1 ! n)) \<and>
                 (getElementById (document s1) ''loginScreen'' = None \<or>
                  getElementById (document s1) ''adminDashboard'' = None \<longrightarrow> s' = s1))))"
proof (intro conjI impI allI)
  assume "pop (split_on (CHR ''/'') (pathname s)) \<notin> set adminPages \<and>
      \<not> includes_str (pathname s) ''/admin''"
  then show "protectPage s = Some (True, s)"
    by (simp add: protectPage_def requiresAuthentication_def)
next
  assume "pop (split_on (CHR ''/'') (pathname s)) \<in> set adminPages \<or>
      includes_str (pathname s) ''/admin''"
    and "isAuthenticated s = None"
  then show "protectPage s = None"
    by (simp add: protectPage_def requiresAuthentication_def)
next
  fix b s1
  assume admin: "pop (split_on (CHR ''/'') (pathname s)) \<in> set adminPages \<or>
      includes_str (pathname s) ''/admin''"
    and a: "isAuthenticated s = Some (b, s1)"
  let ?s' = "if b then showAdminContent s1 else showLoginForm s1"
  have p: "protectPage s = Some (b, ?s')"
    using admin a by (simp add: protectPage_def requiresAuthentication_def)
  have frame: "?s'\<lparr>document := document s1\<rparr> = s1"
    "map elem_id (document ?s') = map elem_id (document s1)"
    by (simp_all add: show_frame)
  have toggles: "\<exists>l' a'. getElementById (document ?s') ''loginScreen'' = Some l' \<and>
        getElementById (document ?s') ''adminDashboard'' = Some a' \<and>
        (''hidden'' \<in> set (classList l')) = b \<and>
        display l' = (if b then ''none'' else ''block'') \<and>
        (''hidden'' \<in> set (classList a')) = (\<not> b) \<and>
        display a' = (if b then ''block'' else ''none'') \<and>
        set (classList l') - {''hidden''} = set (classList l) - {''hidden''} \<and>
        set (classList a') - {''hidden''} = set (classList a) - {''hidden''}"
    if "getElementById (document s1) ''loginScreen'' = Some l \<and>
        getElementById (document s1) ''adminDashboard'' = Some a" for l a
    using that showLoginForm_toggles[of s1 l a] showAdminContent_toggles[of s1 l a]
    by (cases b) auto
  have others: "classList (document ?s' ! n) = classList (document s1 ! n) \<and>
        display (document ?s' ! n) = display (document s1 ! n)"
    if "n < length (document s1) \<and> elem_id (document s1 ! n) \<noteq> ''loginScreen'' \<and>
        elem_id (document s1 ! n) \<noteq> ''adminDashboard''" for n
    using that show_others[of n s1] by simp
  have missing: "?s' = s1"
    if "getElementById (document s1) ''loginScreen'' = None \<or>
        getElementById (document s1) ''adminDashboard'' = None"
    using that show_missing[of s1] by simp
  show "\<exists>s'. protectPage s = Some (b, s') \<and>
          s' = (if b then showAdminContent s1 else showLoginForm s1) \<and>
          s'\<lparr>document := document s1\<rparr> = s1 \<and>
          map elem_id (document s') = map elem_id (document s1) \<and>
          (\<forall>l a. getElementById (document s1) ''loginScreen'' = Some l \<and>
                 getElementById (document s1) ''adminDashboard'' = Some a \<longrightarrow>
             (\<exists>l' a'. getElementById (document s') ''loginScreen'' = Some l' \<and>
                getElementById (document s') ''adminDashboard'' = Some a' \<and>
                (''hidden'' \<in> set (classList l')) = b \<and>
                display l' = (if b then ''none'' else ''block'') \<and>
                (''hidden'' \<in> set (classList a')) = (\<not> b) \<and>
                display a' = (if b then ''block'' else ''none'') \<and>
                set (classList l') - {''hidden''} = set (classList l) - {''hidden''} \<and>
                set (classList a') - {''hidden''} = set (classList a) - {''hidden''})) \<and>
          (\<forall>n. n < length (document s1) \<and>
               elem_id (document s1 ! n) \<noteq> ''loginScreen'' \<and>
               elem_id (document s1 ! n) \<noteq> ''adminDashboard'' \<longrightarrow>
             classList (document s' ! n) = classList (document s1 ! n) \<and>
             display (document s' ! n) = display (document s1 ! n)) \<and>
          (getElementById (document s1) ''loginScreen'' = None \<or>
           getElementById (document s1) ''adminDashboard'' = None \<longrightarrow> s' = s1)"
    apply (intro exI[of _ ?s'] conjI allI impI)
          apply (rule p)
         apply (rule refl)
        apply (rule frame(1))
       apply (rule frame(2))
       apply (erule toggles)
      apply (erule others[THEN conjunct1])
     apply (erule others[THEN conjunct2])
    apply (erule missing)
    done
qed

theorem protectPage_guard_witness:
  "protectPage (page0\<lparr>pathname := ''/club/index.html''\<rparr>)
     = Some (True, page0\<lparr>pathname := ''/club/index.html''\<rparr>) \<and>
   (\<exists>s' l' a'. protectPage page0 = Some (True, s') \<and>
      getElementById (document page0) ''adminDashboard''
        = Some \<lparr>elem_id = ''adminDashboard'', classList = [''hidden''], display = ''none'',
                 content = Html []\<rparr> \<and>
      getElementById (document s') ''loginScreen'' = Some l' \<and>
      getElementById (document s') ''adminDashboard'' = Some a' \<and>
      ''hidden'' \<in> set (classList l') \<and> display l' = ''none'' \<and>
      ''hidden'' \<notin> set (classList a') \<and> display a' = ''block'') \<and>
   (\<exists>s' l' a'. protectPage (login_page\<lparr>pathname := ''/admin/members'',
                                        document := dashboard_shown\<rparr>) = Some (False, s') \<and>
      getElementById (document s') ''loginScreen'' = Some l' \<and>
      getElementById (document s') ''adminDashboard'' = Some a' \<and>
      ''hidden'' \<notin> set (classList l') \<and> display l' = ''block'' \<and>
      set (classList l') - {''hidden''} = {''card''} \<and>
      ''hidden'' \<in> set (classList a') \<and> display a' = ''none'')"
proof (intro conjI)
  have "pop (split_on (CHR ''/'') (pathname (page0\<lparr>pathname := ''/club/index.html''\<rparr>)))
          \<notin> set adminPages \<and>
        \<not> includes_str (pathname (page0\<lparr>pathname := ''/club/index.html''\<rparr>)) ''/admin''"
    by (simp add: pop_def adminPages_def)
  then show "protectPage (page0\<lparr>pathname := ''/club/index.html''\<rparr>)
     = Some (True, page0\<lparr>pathname := ''/club/index.html''\<rparr>)"
    using protectPage_guard[of "page0\<lparr>pathname := ''/club/index.html''\<rparr>"] by blast
next
  let ?s1 = "snd (date_now (snd (date_now page0)))"
  let ?l = "\<lparr>elem_id = ''loginScreen'', classList = [], display = ''block'',
             content = Html []\<rparr>"
  let ?a = "\<lparr>elem_id = ''adminDashboard'', classList = [''hidden''], display = ''none'',
             content = Html []\<rparr>"
  have p: "pop (split_on (CHR ''/'') (pathname page0)) \<in> set adminPages \<or>
           includes_str (pathname page0) ''/admin''"
    by (simp add: pop_def adminPages_def page0_def)
  have a: "isAuthenticated page0 = Some (True, ?s1)"
    by (rule auth_fresh[where e = 1700086400000])
      (simp_all add: page0_def date_now_eq ACTIVITY_TIMEOUT_def)
  have d: "getElementById (document ?s1) ''loginScreen'' = Some ?l \<and>
           getElementById (document ?s1) ''adminDashboard'' = Some ?a"
    by (simp add: page0_def dashboard_def getElementById_def)
  have d0: "getElementById (document page0) ''adminDashboard'' = Some ?a"
    by (simp add: page0_def dashboard_def getElementById_def)
  from protectPage_guard[of page0, THEN conjunct2, rule_format, OF p, THEN conjunct2,
      rule_format, OF a]
  obtain s' where s': "protectPage page0 = Some (True, s')"
    and t: "\<forall>l a. getElementById (document ?s1) ''loginScreen'' = Some l \<and>
              getElementById (document ?s1) ''adminDashboard'' = Some a \<longrightarrow>
           (\<exists>l' a'. getElementById (document s') ''loginScreen'' = Some l' \<and>
              getElementById (document s') ''adminDashboard'' = Some a' \<and>
              (''hidden'' \<in> set (classList l')) = True \<and>
              display l' = (if True then ''none'' else ''block'') \<and>
              (''hidden'' \<in> set (classList a')) = (\<not> True) \<and>
              display a' = (if True then ''block'' else ''none'') \<and>
              set (classList l') - {''hidden''} = set (classList l) - {''hidden''} \<and>
              set (classList a') - {''hidden''} = set (classList a) - {''hidden''})"
    by blast
  from t[rule_format, OF d] s' d0
  show "\<exists>s' l' a'. protectPage page0 = Some (True, s') \<and>
      getElementById (document page0) ''adminDashboard'' = Some ?a \<and>
      getElementById (document s') ''loginScreen'' = Some l' \<and>
      getElementById (document s') ''adminDashboard'' = Some a' \<and>
      ''hidden'' \<in> set (classList l') \<and> display l' = ''none'' \<and>
      ''hidden'' \<notin> set (classList a') \<and> display a' = ''block''"
    by auto
next
  let ?s = "login_page\<lparr>pathname := ''/admin/members'', document := dashboard_shown\<rparr>"
  let ?l = "\<lparr>elem_id = ''loginScreen'', classList = [''card'', ''hidden''], display = ''none'',
             content = Html []\<rparr>"
  let ?a = "\<lparr>elem_id = ''adminDashboard'', classList = [''wide''], display = ''block'',
             content = Html []\<rparr>"
  have p: "pop (split_on (CHR ''/'') (pathname ?s)) \<in> set adminPages \<or>
           includes_str (pathname ?s) ''/admin''"
    by simp
  have a: "isAuthenticated ?s = Some (False, ?s)"
    by (simp add: isAuthenticated_unfold login_page_def)
  have d: "getElementById (document ?s) ''loginScreen'' = Some ?l \<and>
           getElementById (document ?s) ''adminDashboard'' = Some ?a"
    by (simp add: dashboard_shown_def getElementById_def)
  from protectPage_guard[of ?s, THEN conjunct2, rule_format, OF p, THEN conjunct2,
      rule_format, OF a]
  obtain s' where s': "protectPage ?s = Some (False, s')"
    and t: "\<forall>l a. getElementById (document ?s) ''loginScreen'' = Some l \<and>
              getElementById (document ?s) ''adminDashboard'' = Some a \<longrightarrow>
           (\<exists>l' a'. getElementById (document s') ''loginScreen'' = Some l' \<and>
              getElementById (document s') ''adminDashboard'' = Some a' \<and>
              (''hidden'' \<in> set (classList l')) = False \<and>
              display l' = (if False then ''none'' else ''block'') \<and>
              (''hidden'' \<in> set (classList a')) = (\<not> False) \<and>
              display a' = (if False then ''block'' else ''none'') \<and>
              set (classList l') - {''hidden''} = set (classList l) - {''hidden''} \<and>
              set (classList a') - {''hidden''} = set (classList a) - {''hidden''})"
    by blast
  from t[rule_format, OF d] s'
  show "\<exists>s' l' a'. protectPage ?s = Some (False, s') \<and>
      getElementById (document s') ''loginScreen'' = Some l' \<and>
      getElementById (document s') ''adminDashboard'' = Some a' \<and>
      ''hidden'' \<notin> set (classList l') \<and> display l' = ''block'' \<and>
      set (classList l') - {''hidden''} = {''card''} \<and>
      ''hidden'' \<in> set (classList a') \<and> display a' = ''none''"
    by auto
qed

section \<open>Loading the header and the footer\<close>

lemma includes_append: "includes_str (p @ sub @ q) sub"
proof (induction p)
  case Nil
  have "take (length sub) (sub @ q) = sub" by simp
  then show ?case by (cases "sub @ q") (auto simp del: take_append)
next
  case (Cons c p)
  then show ?case by simp
qed

lemma error_html_footer:
  \<open>error_html ''footer'' message =
     ([CHR 0x0A] @ replicate 16 (CHR '' '') @ ''<div class="component-error">'' @
      [CHR 0x0A] @ replicate 20 (CHR '' '') @ ''<p>'') @
     ''Unable to load footer'' @
     (''. Please refresh the page.</p>'' @
      [CHR 0x0A] @ replicate 20 (CHR '' '') @ ''<small>Error: '' @ message @ ''</small>'' @
      [CHR 0x0A] @ replicate 16 (CHR '' '') @ ''</div>'' @
      [CHR 0x0A] @ replicate 12 (CHR '' ''))\<close>
  by (simp add: error_html_def)

lemma error_html_includes: "includes_str (error_html ''footer'' message) ''Unable to load footer''"
  unfolding error_html_footer by (rule includes_append)

lemma set_innerHTML_get:
  "getElementById (set_innerHTML i html els) j =
     (if i = j then map_option (\<lambda>e. e\<lparr>content := Html html\<rparr>) (getElementById els j)
      else getElementById els j)"
  by (simp add: set_innerHTML_def getElementById_update)

lemma fetch_text_succeeded:
  "fetch_succeeded outcome = (\<exists>htmlContent. fetch_text outcome = Inr htmlContent)"
  by (auto simp add: fetch_succeeded_def fetch_text_def
      split: fetch_outcome.splits body_outcome.splits)

text \<open>
  C10. For every container id, path and fetch outcome (network failure,
  non-OK status, failure to read the body, or success), \<^verbatim>\<open>loadHTMLComponent\<close>
  ends with a boolean and no exception leaves it; the boolean is true exactly
  when the container exists and the fetch succeeded with an OK status.
\<close>

theorem loadHTMLComponent_settles:
  "fst (loadHTMLComponent fetch els componentPath containerId componentName) =
     (getElementById els containerId \<noteq> None \<and> fetch_succeeded (fetch componentPath))"
  by (auto simp add: loadHTMLComponent_def load_start_def load_finish_def
      fetch_text_succeeded set_innerHTML_get
      split: option.splits sum.splits)

theorem loadHTMLComponent_settles_witness:
  "fst (loadHTMLComponent server site ''header.html'' ''header-container'' ''header'') \<and>
   \<not> fst (loadHTMLComponent server site ''footer.html'' ''footer-container'' ''footer'') \<and>
   \<not> fst (loadHTMLComponent server site ''cut.html'' ''header-container'' ''header'') \<and>
   \<not> fst (loadHTMLComponent server site ''gone.html'' ''header-container'' ''header'') \<and>
   \<not> fst (loadHTMLComponent server site ''header.html'' ''sidebar'' ''header'')"
  using loadHTMLComponent_settles[of server site "''header.html''" "''header-container''" "''header''"]
    loadHTMLComponent_settles[of server site "''footer.html''" "''footer-container''" "''footer''"]
    loadHTMLComponent_settles[of server site "''cut.html''" "''header-container''" "''header''"]
    loadHTMLComponent_settles[of server site "''gone.html''" "''header-container''" "''header''"]
    loadHTMLComponent_settles[of server site "''header.html''" "''sidebar''" "''header''"]
  by (simp add: site_def server_def getElementById_def fetch_succeeded_def response_ok_def)

lemma string_of_404: "string_of_nat 404 = ''404''"
  by (simp add: string_of_nat.simps[of 404] string_of_nat.simps[of 40] string_of_nat.simps[of 4])

text \<open>
  C6. With both containers in the document, the footer fetch answering 404
  and the header fetch answering 200 with the body \<^verbatim>\<open><div>H</div>\<close>: whichever
  fetch settles first, the footer load returns false and its container holds
  the error message, which contains \<^verbatim>\<open>Unable to load footer\<close>, and the header
  load returns true and its container holds \<^verbatim>\<open><div>H</div>\<close> as it came. The
  same holds of each load run alone.
\<close>

theorem footer_fails_header_loads:
  assumes "getElementById els headerContainerId \<noteq> None"
    and "getElementById els footerContainerId \<noteq> None"
    and "fetch footerPath = Response 404 statusText body"
    and \<open>fetch headerPath = Response 200 statusText' (BodyText ''<div>H</div>'')\<close>
  shows \<open>\<exists>els' message.
           loadAllComponents fetch headerFirst els = ((True, False), els') \<and>
           map_option content (getElementById els' headerContainerId)
             = Some (Html ''<div>H</div>'') \<and>
           map_option content (getElementById els' footerContainerId)
             = Some (Html (error_html ''footer'' message)) \<and>
           includes_str (error_html ''footer'' message) ''Unable to load footer'' \<and>
           \<not> fst (loadHTMLComponent fetch els footerPath footerContainerId ''footer'') \<and>
           map_option content
             (getElementById
                (snd (loadHTMLComponent fetch els footerPath footerContainerId ''footer''))
                footerContainerId)
             = Some (Html (error_html ''footer'' message)) \<and>
           fst (loadHTMLComponent fetch els headerPath headerContainerId ''header'') \<and>
           map_option content
             (getElementById
                (snd (loadHTMLComponent fetch els headerPath headerContainerId ''header''))
                headerContainerId)
             = Some (Html ''<div>H</div>'')\<close>
proof -
  let ?message = "''HTTP 404: '' @ statusText"
  have ids: "headerContainerId \<noteq> footerContainerId"
    by (simp add: headerContainerId_def footerContainerId_def)
  have f: "fetch_text (fetch footerPath) = Inl ?message"
    by (simp add: assms(3) fetch_text_def response_ok_def string_of_404)
  have h: \<open>fetch_text (fetch headerPath) = Inr ''<div>H</div>''\<close>
    by (simp add: assms(4) fetch_text_def response_ok_def)
  from assms(1,2) obtain hc fc where
    hc: "getElementById els headerContainerId = Some hc" and
    fc: "getElementById els footerContainerId = Some fc"
    by auto
  have all: \<open>\<exists>els'. loadAllComponents fetch headerFirst els = ((True, False), els') \<and>
           map_option content (getElementById els' headerContainerId)
             = Some (Html ''<div>H</div>'') \<and>
           map_option content (getElementById els' footerContainerId)
             = Some (Html (error_html ''footer'' ?message))\<close>
    using ids hc fc f h
    by (cases headerFirst)
      (simp_all add: loadAllComponents_def load_start_def load_finish_def
        set_innerHTML_get Let_def)
  have one: \<open>\<not> fst (loadHTMLComponent fetch els footerPath footerContainerId ''footer'') \<and>
           map_option content
             (getElementById
                (snd (loadHTMLComponent fetch els footerPath footerContainerId ''footer''))
                footerContainerId)
             = Some (Html (error_html ''footer'' ?message)) \<and>
           fst (loadHTMLComponent fetch els headerPath headerContainerId ''header'') \<and>
           map_option content
             (getElementById
                (snd (loadHTMLComponent fetch els headerPath headerContainerId ''header''))
                headerContainerId)
             = Some (Html ''<div>H</div>'')\<close>
    using hc fc f h
    by (simp add: loadHTMLComponent_def load_start_def load_finish_def set_innerHTML_get)
  show ?thesis using all one error_html_includes[of ?message] by blast
qed

theorem footer_fails_header_loads_witness:
  \<open>(\<exists>els' message.
      loadAllComponents server True site = ((True, False), els') \<and>
      map_option content (getElementById els' headerContainerId) = Some (Html ''<div>H</div>'') \<and>
      map_option content (getElementById els' footerContainerId)
        = Some (Html (error_html ''footer'' message)) \<and>
      includes_str (error_html ''footer'' message) ''Unable to load footer'') \<and>
   (\<exists>els' message.
      loadAllComponents server False site = ((True, False), els') \<and>
      map_option content (getElementById els' headerContainerId) = Some (Html ''<div>H</div>'') \<and>
      map_option content (getElementById els' footerContainerId)
        = Some (Html (error_html ''footer'' message)) \<and>
      includes_str (error_html ''footer'' message) ''Unable to load footer'')\<close>
proof -
  have c: "getElementById site headerContainerId \<noteq> None"
    "getElementById site footerContainerId \<noteq> None"
    by (simp_all add: site_def getElementById_def headerContainerId_def footerContainerId_def)
  have f: \<open>server footerPath = Response 404 ''Not Found'' (BodyText ''<h1>404</h1>'')\<close>
    \<open>server headerPath = Response 200 ''OK'' (BodyText ''<div>H</div>'')\<close>
    by (simp_all add: server_def footerPath_def headerPath_def)
  show ?thesis
    using footer_fails_header_loads[OF c f, of True]
      footer_fails_header_loads[OF c f, of False]
    by blast
qed

end
